theory Spec2Isabelle
  imports Main "HOL-Library.Finite_Map" "HOL-Library.Sublist" "HOL-Library.Multiset" "HOL-Library.Word"
begin

unbundle bit_operations_syntax

section \<open>Data model\<close>

text \<open>
  The Story struct of both services (story-api/main.go and the scraper's main.go).
  Go's \<^verbatim>\<open>int\<close> and \<^verbatim>\<open>int64\<close> fields are integers; no arithmetic is done on them, so
  no wrap-around can occur in the code modelled here.  Strings are byte strings.
\<close>

record Story =
  ID :: int
  Title :: string
  URL :: string
  By :: string
  Score :: int
  Time :: int
  Type :: string

text \<open>FilterConfig, the \<^verbatim>\<open>filter\<close> section of the YAML configuration.\<close>

record FilterConfig =
  StoryTypes :: "string list"
  Keywords :: "string list"
  MinimumScore :: int

text \<open>
  StoryFilter.  The field \<^verbatim>\<open>storyTypes\<close> is a Go \<^verbatim>\<open>map[string]bool\<close>: a finite map.
\<close>

record StoryFilter =
  storyTypes :: "(string, bool) fmap"
  "keywords" :: "string list"
  minimumScore :: int
  enabled :: bool

text \<open>\<^verbatim>\<open>len(m)\<close> of a Go map: the number of its keys.\<close>

definition len_map :: "('k, 'v) fmap \<Rightarrow> nat" where
  "len_map m = fcard (fmdom m)"

text \<open>
  \<^verbatim>\<open>m[k]\<close> on a \<^verbatim>\<open>map[...]bool\<close>: the stored value, and the zero value \<^verbatim>\<open>false\<close> for a
  key that is absent.
\<close>

definition index_bool :: "('k, bool) fmap \<Rightarrow> 'k \<Rightarrow> bool" where
  "index_bool m k = (case fmlookup m k of None \<Rightarrow> False | Some b \<Rightarrow> b)"

section \<open>Filter engine (story-api/main.go)\<close>

text \<open>
  The loop of NewStoryFilter that populates the map:
  \<^verbatim>\<open>for _, t := range cfg.StoryTypes { filter.storyTypes[t] = true }\<close>
\<close>

fun populateStoryTypes :: "string list \<Rightarrow> (string, bool) fmap \<Rightarrow> (string, bool) fmap" where
  "populateStoryTypes [] m = m"
| "populateStoryTypes (t # ts) m = populateStoryTypes ts (fmupd t True m)"

definition NewStoryFilter :: "FilterConfig \<Rightarrow> StoryFilter" where
  "NewStoryFilter cfg =
     \<lparr> storyTypes = populateStoryTypes (StoryTypes cfg) fmempty,
       keywords = Keywords cfg,
       minimumScore = MinimumScore cfg,
       enabled = (length (StoryTypes cfg) > 0 \<or> length (Keywords cfg) > 0 \<or> MinimumScore cfg > 0) \<rparr>"

text \<open>
  \<^verbatim>\<open>strings.ToLower\<close> of the Go standard library.  A string of ASCII bytes is lower-cased
  byte by byte: every byte from \<^verbatim>\<open>'A'\<close> to \<^verbatim>\<open>'Z'\<close> is moved by \<^verbatim>\<open>'a' - 'A'\<close>.  Any other
  string goes through \<^verbatim>\<open>strings.Map(unicode.ToLower, s)\<close>: it is decoded as UTF-8 rune by
  rune, each rune is mapped, and the mapped runes are encoded again.

  The standard library is no part of the repository.  Its UTF-8 decoder and encoder and
  the ASCII branch of \<^verbatim>\<open>unicode.ToLower\<close> are written out below; the look-up of a rune above
  ASCII in the table \<^verbatim>\<open>unicode.CaseRanges\<close>, which is \<^verbatim>\<open>unicode.To(unicode.LowerCase, r)\<close>, is
  the parameter \<open>caseRanges\<close> of everything that lower-cases.  A rune is a natural number:
  the table never gives a negative rune, the only one \<^verbatim>\<open>strings.Map\<close> would drop.
\<close>

definition RuneError :: nat where
  "RuneError = 65533"

text \<open>
  \<^verbatim>\<open>utf8.DecodeRuneInString\<close>: the first rune of the string and its width in bytes.  A
  byte that starts no well-formed encoding (shortest form, no surrogate, at most U+10FFFF)
  gives \<^verbatim>\<open>RuneError\<close> with the width 1.
\<close>

fun DecodeRuneInString :: "string \<Rightarrow> nat \<times> nat" where
  "DecodeRuneInString [] = (RuneError, 0)"
| "DecodeRuneInString (c0 # rest) =
     (let s0 = (of_char c0 :: nat) in
      if s0 < 128 then (s0, 1)
      else if s0 < 194 \<or> 244 < s0 then (RuneError, 1)
      else
        (let sz = (if s0 < 224 then 2 else if s0 < 240 then 3 else (4::nat));
             lo = (if s0 = 224 then 160 else if s0 = 240 then 144 else (128::nat));
             hi = (if s0 = 237 then 159 else if s0 = 244 then 143 else (191::nat))
         in case rest of
              [] \<Rightarrow> (RuneError, 1)
            | c1 # rest1 \<Rightarrow>
                (let s1 = (of_char c1 :: nat) in
                 if s1 < lo \<or> hi < s1 then (RuneError, 1)
                 else if sz \<le> 2 then ((s0 mod 32) * 64 + s1 mod 64, 2)
                 else case rest1 of
                   [] \<Rightarrow> (RuneError, 1)
                 | c2 # rest2 \<Rightarrow>
                     (let s2 = (of_char c2 :: nat) in
                      if s2 < 128 \<or> 191 < s2 then (RuneError, 1)
                      else if sz \<le> 3
                        then ((s0 mod 16) * 4096 + (s1 mod 64) * 64 + s2 mod 64, 3)
                      else case rest2 of
                        [] \<Rightarrow> (RuneError, 1)
                      | c3 # rest3 \<Rightarrow>
                          (let s3 = (of_char c3 :: nat) in
                           if s3 < 128 \<or> 191 < s3 then (RuneError, 1)
                           else ((s0 mod 8) * 262144 + (s1 mod 64) * 4096
                                   + (s2 mod 64) * 64 + s3 mod 64, 4))))))"

text \<open>
  \<^verbatim>\<open>utf8.AppendRune\<close>: the UTF-8 encoding of a rune; a surrogate or a rune above U+10FFFF
  is encoded as \<^verbatim>\<open>RuneError\<close>.
\<close>

definition AppendRune :: "nat \<Rightarrow> string" where
  "AppendRune r =
     (if r \<le> 127 then [char_of r]
      else if r \<le> 2047 then [char_of (192 + r div 64), char_of (128 + r mod 64)]
      else if 1114111 < r \<or> (55296 \<le> r \<and> r \<le> 57343)
        then [char_of (239::nat), char_of (191::nat), char_of (189::nat)]
      else if r \<le> 65535
        then [char_of (224 + r div 4096), char_of (128 + (r div 64) mod 64), char_of (128 + r mod 64)]
      else [char_of (240 + r div 262144), char_of (128 + (r div 4096) mod 64),
            char_of (128 + (r div 64) mod 64), char_of (128 + r mod 64)])"

text \<open>
  \<^verbatim>\<open>strings.Map(mapping, s)\<close>: the encodings of the mapped runes of \<^verbatim>\<open>s\<close>, one after the
  other.  The decoded rune has the width \<open>width\<close>, of which the byte \<open>c0\<close> is the first.
\<close>

fun stringsMap :: "(nat \<Rightarrow> nat) \<Rightarrow> string \<Rightarrow> string" where
  "stringsMap mapping [] = []"
| "stringsMap mapping (c0 # rest) =
     (case DecodeRuneInString (c0 # rest) of
        (c, width) \<Rightarrow> AppendRune (mapping c) @ stringsMap mapping (drop (width - 1) rest))"

text \<open>\<^verbatim>\<open>unicode.ToLower\<close>: the ASCII branch, and the table for every other rune.\<close>

definition unicodeToLower :: "(nat \<Rightarrow> nat) \<Rightarrow> nat \<Rightarrow> nat" where
  "unicodeToLower caseRanges r =
     (if r \<le> 127 then (if 65 \<le> r \<and> r \<le> 90 then r + 32 else r) else caseRanges r)"

definition toLowerByte :: "char \<Rightarrow> char" where
  "toLowerByte c =
     (if 65 \<le> (of_char c :: nat) \<and> (of_char c :: nat) \<le> 90
      then char_of ((of_char c :: nat) + 32) else c)"

definition isASCII :: "string \<Rightarrow> bool" where
  "isASCII s = list_all (\<lambda>c. (of_char c :: nat) < 128) s"

definition ToLower :: "(nat \<Rightarrow> nat) \<Rightarrow> string \<Rightarrow> string" where
  "ToLower caseRanges s =
     (if isASCII s then map toLowerByte s else stringsMap (unicodeToLower caseRanges) s)"

text \<open>\<^verbatim>\<open>strings.Contains(s, substr)\<close>: \<^verbatim>\<open>substr\<close> occurs in \<^verbatim>\<open>s\<close> as a contiguous run of bytes.\<close>

definition Contains :: "string \<Rightarrow> string \<Rightarrow> bool" where
  "Contains s substr = sublist substr s"

text \<open>
  The keyword loop of Matches: \<^verbatim>\<open>matched\<close> becomes true at the first keyword whose
  lower-cased form occurs in the lower-cased title, and the loop breaks there.
\<close>

fun matchKeywords :: "(nat \<Rightarrow> nat) \<Rightarrow> string \<Rightarrow> string list \<Rightarrow> bool" where
  "matchKeywords caseRanges titleLower [] = False"
| "matchKeywords caseRanges titleLower (keyword # rest) =
     (if Contains titleLower (ToLower caseRanges keyword) then True
      else matchKeywords caseRanges titleLower rest)"

definition Matches :: "(nat \<Rightarrow> nat) \<Rightarrow> StoryFilter \<Rightarrow> Story \<Rightarrow> bool" where
  "Matches caseRanges f story =
     (if \<not> enabled f then True
      else if len_map (storyTypes f) > 0 \<and> \<not> index_bool (storyTypes f) (Type story) then False
      else if Score story < minimumScore f then False
      else if length (keywords f) > 0
        then (let titleLower = ToLower caseRanges (Title story)
              in if \<not> matchKeywords caseRanges titleLower (keywords f) then False else True)
      else True)"

text \<open>
  Only NewStoryFilter builds a StoryFilter, and it stores nothing but \<^verbatim>\<open>true\<close> in the map:
  the map is the set of its keys.
\<close>

definition typeSet :: "StoryFilter \<Rightarrow> bool" where
  "typeSet f = (fmran (storyTypes f) |\<subseteq>| {|True|})"

text \<open>
  Two bytes that differ at most in letter case: equal, or an ASCII capital and the small
  letter 32 places above it.
\<close>

definition sameLetter :: "char \<Rightarrow> char \<Rightarrow> bool" where
  "sameLetter c d =
     (c = d
      \<or> (65 \<le> (of_char c :: nat) \<and> (of_char c :: nat) \<le> 90 \<and> (of_char d :: nat) = of_char c + 32)
      \<or> (65 \<le> (of_char d :: nat) \<and> (of_char d :: nat) \<le> 90 \<and> (of_char c :: nat) = of_char d + 32))"

definition sameCase :: "string \<Rightarrow> string \<Rightarrow> bool" where
  "sameCase s t = list_all2 sameLetter s t"

section \<open>Producer (the scraper's main.go)\<close>

text \<open>
  The Kafka writer, the clock and the shutdown signal are the environment of
  publishStoryToKafka.  What they do in one iteration of the retry loop is an
  \<open>attempt\<close>: whether \<^verbatim>\<open>s.ctx.Err()\<close> is set at the top of the iteration, which case of
  the \<^verbatim>\<open>select\<close> fires (the write returned nil, the write returned an error, the six
  seconds passed, or \<^verbatim>\<open>s.ctx.Done()\<close>), whether \<^verbatim>\<open>s.ctx.Err()\<close> is set after the select, and
  whether the shutdown signal ends the backoff sleep.  The environment of one call is a
  function from the iteration number to its attempt.
\<close>

datatype select_case = WriteNil | WriteErr | PublishTimeout | CtxDone

record attempt =
  ctxErrBefore :: bool
  selected :: select_case
  ctxErrAfter :: bool
  backoffCancelled :: bool

datatype publish_error = ShutdownInProgress | RetriesFailed

text \<open>A broker message: the key (the source label) and the value (the story).\<close>

type_synonym message = "string \<times> Story"

definition maxRetries :: nat where
  "maxRetries = 5"

text \<open>
  The retry loop \<^verbatim>\<open>for attempt := 0; attempt <= maxRetries; attempt++\<close>.  The last argument
  is the list of the messages that the broker has acknowledged (a \<^verbatim>\<open>WriteMessages\<close> call
  that returned nil appends its message); the result is the error (None for nil) and
  that list.  The durations of the timeout and of the backoff are not modelled.
\<close>

function publishAttempts ::
  "(nat \<Rightarrow> attempt) \<Rightarrow> message \<Rightarrow> nat \<Rightarrow> message list \<Rightarrow> publish_error option \<times> message list" where
  "publishAttempts env msg attempt topic =
     (if attempt \<le> maxRetries then
        (if ctxErrBefore (env attempt) then (Some ShutdownInProgress, topic)
         else if selected (env attempt) = WriteNil then (None, topic @ [msg])
         else if selected (env attempt) = CtxDone then (Some ShutdownInProgress, topic)
         else if ctxErrAfter (env attempt) then (Some ShutdownInProgress, topic)
         else if attempt < maxRetries \<and> backoffCancelled (env attempt)
           then (Some ShutdownInProgress, topic)
         else publishAttempts env msg (attempt + 1) topic)
      else (Some RetriesFailed, topic))"
  by pat_completeness auto
termination
  by (relation "measure (\<lambda>(env, msg, attempt, topic). Suc maxRetries - attempt)") auto

declare publishAttempts.simps [simp del]

text \<open>
  publishStoryToKafka.  \<^verbatim>\<open>json.Marshal\<close> of a Story (integers and strings) returns no
  error, so the loop is always entered.
\<close>

definition publishStoryToKafka ::
  "(nat \<Rightarrow> attempt) \<Rightarrow> Story \<Rightarrow> string \<Rightarrow> message list \<Rightarrow> publish_error option \<times> message list" where
  "publishStoryToKafka env story source topic = publishAttempts env (source, story) 0 topic"

text \<open>
  The Scraper: the Seen-Set \<^verbatim>\<open>seenStories\<close> (a \<^verbatim>\<open>map[int]bool\<close>) and, for \<^verbatim>\<open>kafkaWriter\<close>, the
  messages acknowledged by the broker so far.
\<close>

record Scraper =
  seenStories :: "(int, bool) fmap"
  kafkaWriter :: "message list"

text \<open>NewScraper starts with an empty map; nothing has been written yet.\<close>

definition NewScraper :: Scraper where
  "NewScraper = \<lparr> seenStories = fmempty, kafkaWriter = [] \<rparr>"

text \<open>
  addAndPublishStory holds the mutex from entry to return, so calls do not interleave: a
  call is a function from the state before to the state after.  An error of the publish
  is printed and dropped.
\<close>

definition addAndPublishStory :: "(nat \<Rightarrow> attempt) \<Rightarrow> Story \<Rightarrow> string \<Rightarrow> Scraper \<Rightarrow> Scraper" where
  "addAndPublishStory env story source s =
     (if \<not> index_bool (seenStories s) (ID story) then
        (let s1 = s\<lparr>seenStories := fmupd (ID story) True (seenStories s)\<rparr>
         in s1\<lparr>kafkaWriter := snd (publishStoryToKafka env story source (kafkaWriter s1))\<rparr>)
      else s)"

text \<open>
  A process lifetime is a sequence of calls of addAndPublishStory, those that pollStories
  makes tick after tick, each with its story, its source label and its environment.
\<close>

fun addAndPublishAll :: "(Story \<times> string \<times> (nat \<Rightarrow> attempt)) list \<Rightarrow> Scraper \<Rightarrow> Scraper" where
  "addAndPublishAll [] s = s"
| "addAndPublishAll ((story, source, env) # calls) s =
     addAndPublishAll calls (addAndPublishStory env story source s)"

text \<open>The number of broker messages for one item id.\<close>

definition messagesFor :: "int \<Rightarrow> message list \<Rightarrow> nat" where
  "messagesFor i topic = length (filter (\<lambda>m. ID (snd m) = i) topic)"

text \<open>
  The invariant of the Scraper: no id has more than one message, and every id that has a
  message is marked in the Seen-Set.
\<close>

definition published_seen :: "Scraper \<Rightarrow> bool" where
  "published_seen s =
     (\<forall>i. messagesFor i (kafkaWriter s) \<le> 1
        \<and> (0 < messagesFor i (kafkaWriter s) \<longrightarrow> index_bool (seenStories s) i))"

section \<open>Consumer and store (story-api/main.go)\<close>

text \<open>
  What one iteration of the loop of consumeMessages meets: \<^verbatim>\<open>s.ctx.Done()\<close> in the select,
  \<^verbatim>\<open>FetchMessage\<close> returning \<^verbatim>\<open>context.Canceled\<close>, \<^verbatim>\<open>FetchMessage\<close> returning another error, or
  a message with its value.
\<close>

datatype event = Done | Canceled | FetchFailed | Message string

datatype printed_line =
  ShuttingDown | ErrorFetch | ErrorUnmarshal | FilteredLine int | StoredLine int

record Server =
  store :: "(int, Story) fmap"
  filter' :: StoryFilter
  printed :: "printed_line list"

definition print :: "printed_line \<Rightarrow> Server \<Rightarrow> Server" where
  "print l s = s\<lparr>printed := printed s @ [l]\<rparr>"

definition AddStory :: "Story \<Rightarrow> Server \<Rightarrow> Server" where
  "AddStory story s = s\<lparr>store := fmupd (ID story) story (store s)\<rparr>"

text \<open>
  consumeMessages on the events of a finite stretch of its run.  \<^verbatim>\<open>json.Unmarshal\<close> into a
  fresh Story is the parameter \<open>unmarshal\<close> (None when it returns an error).  \<open>caseRanges\<close>
  is the table that Matches lower-cases with.
\<close>

fun consumeMessages ::
  "(nat \<Rightarrow> nat) \<Rightarrow> (string \<Rightarrow> Story option) \<Rightarrow> event list \<Rightarrow> Server \<Rightarrow> Server" where
  "consumeMessages caseRanges unmarshal [] s = s"
| "consumeMessages caseRanges unmarshal (Done # es) s = print ShuttingDown s"
| "consumeMessages caseRanges unmarshal (Canceled # es) s = s"
| "consumeMessages caseRanges unmarshal (FetchFailed # es) s =
     consumeMessages caseRanges unmarshal es (print ErrorFetch s)"
| "consumeMessages caseRanges unmarshal (Message v # es) s =
     (case unmarshal v of
        None \<Rightarrow> consumeMessages caseRanges unmarshal es (print ErrorUnmarshal s)
      | Some story \<Rightarrow>
          if \<not> Matches caseRanges (filter' s) story
          then consumeMessages caseRanges unmarshal es (print (FilteredLine (ID story)) s)
          else consumeMessages caseRanges unmarshal es (print (StoredLine (ID story)) (AddStory story s)))"

text \<open>The events after which the loop is still running: none of them ends it.\<close>

fun running :: "event list \<Rightarrow> bool" where
  "running [] = True"
| "running (Done # es) = False"
| "running (Canceled # es) = False"
| "running (FetchFailed # es) = running es"
| "running (Message v # es) = running es"

section \<open>Query layer (story-api/main.go)\<close>

text \<open>
  \<^verbatim>\<open>url.Values\<close> is a \<^verbatim>\<open>map[string][]string\<close>; \<^verbatim>\<open>Get\<close> returns the first value of the key,
  and the empty string when there is none.
\<close>

type_synonym Values = "string \<rightharpoonup> string list"

definition Get :: "Values \<Rightarrow> string \<Rightarrow> string" where
  "Get v key = (case v key of None \<Rightarrow> [] | Some [] \<Rightarrow> [] | Some (x # _) \<Rightarrow> x)"

text \<open>
  \<^verbatim>\<open>strconv.Atoi\<close> of the Go standard library, for the 64-bit \<^verbatim>\<open>int\<close>: an optional sign,
  then one decimal digit or more and nothing else; a value outside the range of \<^verbatim>\<open>int\<close>
  is an error too.  None stands for a non-nil error.
\<close>

fun digits :: "int \<Rightarrow> string \<Rightarrow> int option" where
  "digits n [] = Some n"
| "digits n (ch # s) =
     (if 48 \<le> (of_char ch :: nat) \<and> (of_char ch :: nat) \<le> 57
      then digits (n * 10 + (int (of_char ch) - 48)) s else None)"

definition inRange :: "int \<Rightarrow> int option" where
  "inRange v = (if - (2 ^ 63) \<le> v \<and> v < 2 ^ 63 then Some v else None)"

fun Atoi :: "string \<Rightarrow> int option" where
  "Atoi [] = None"
| "Atoi (c # s) =
     (if c = CHR ''-'' then
        (if s = [] then None
         else case digits 0 s of None \<Rightarrow> None | Some n \<Rightarrow> inRange (- n))
      else if c = CHR ''+'' then
        (if s = [] then None
         else case digits 0 s of None \<Rightarrow> None | Some n \<Rightarrow> inRange n)
      else case digits 0 (c # s) of None \<Rightarrow> None | Some n \<Rightarrow> inRange n)"

text \<open>The initial value of \<^verbatim>\<open>maxScore\<close>: \<^verbatim>\<open>int(^uint32(0) >> 1)\<close>.\<close>

definition maxScoreDefault :: int where
  "maxScoreDefault = uint (drop_bit 1 (NOT (0 :: 32 word)))"

text \<open>
  The four parameters as the handler reads them.  \<open>parseTime\<close> stands for
  \<^verbatim>\<open>time.Parse(time.RFC3339, _)\<close> of the Go standard library followed by \<^verbatim>\<open>Unix()\<close>: the
  number of seconds since 1970-01-01T00:00:00Z, or None when the parse returns an error.
\<close>

definition minScoreOf :: "Values \<Rightarrow> int" where
  "minScoreOf query =
     (let ms = Get query ''minScore''
      in if ms \<noteq> [] then (case Atoi ms of Some v \<Rightarrow> v | None \<Rightarrow> 0) else 0)"

definition maxScoreOf :: "Values \<Rightarrow> int" where
  "maxScoreOf query =
     (let ms = Get query ''maxScore''
      in if ms \<noteq> [] then (case Atoi ms of Some v \<Rightarrow> v | None \<Rightarrow> maxScoreDefault)
         else maxScoreDefault)"

definition sinceTimeOf :: "(string \<Rightarrow> int option) \<Rightarrow> Values \<Rightarrow> int" where
  "sinceTimeOf parseTime query =
     (let st = Get query ''since''
      in if st \<noteq> [] then (case parseTime st of Some t \<Rightarrow> t | None \<Rightarrow> 0) else 0)"

definition untilTimeOf :: "(string \<Rightarrow> int option) \<Rightarrow> Values \<Rightarrow> int" where
  "untilTimeOf parseTime query =
     (let ut = Get query ''until''
      in if ut \<noteq> [] then (case parseTime ut of Some t \<Rightarrow> t | None \<Rightarrow> 0) else 0)"

text \<open>The loop that builds \<^verbatim>\<open>filtered\<close>; each \<^verbatim>\<open>continue\<close> drops the story.\<close>

fun filterStories :: "int \<Rightarrow> int \<Rightarrow> int \<Rightarrow> int \<Rightarrow> Story list \<Rightarrow> Story list" where
  "filterStories minScore maxScore sinceTime untilTime [] = []"
| "filterStories minScore maxScore sinceTime untilTime (story # rest) =
     (if Score story < minScore \<or> Score story > maxScore
        then filterStories minScore maxScore sinceTime untilTime rest
      else if sinceTime > 0 \<and> Time story < sinceTime
        then filterStories minScore maxScore sinceTime untilTime rest
      else if untilTime > 0 \<and> Time story > untilTime
        then filterStories minScore maxScore sinceTime untilTime rest
      else story # filterStories minScore maxScore sinceTime untilTime rest)"

text \<open>
  handleGetStories: the JSON array that the handler writes, as the list of its stories.
  \<open>stories\<close> is the slice returned by GetAllStories, the stored stories in the order in
  which Go iterates over the map, which is not specified.  \<open>sortSlice\<close> stands for
  \<^verbatim>\<open>sort.Slice\<close> of the Go standard library, called with the comparison of two elements.
\<close>

definition handleGetStories ::
  "((Story \<Rightarrow> Story \<Rightarrow> bool) \<Rightarrow> Story list \<Rightarrow> Story list) \<Rightarrow> (string \<Rightarrow> int option)
     \<Rightarrow> Story list \<Rightarrow> Values \<Rightarrow> Story list" where
  "handleGetStories sortSlice parseTime stories query =
     (let filtered = filterStories (minScoreOf query) (maxScoreOf query)
                       (sinceTimeOf parseTime query) (untilTimeOf parseTime query) stories;
          sortBy = Get query ''sort''
      in if sortBy = ''oldest'' then sortSlice (\<lambda>a b. Time a < Time b) filtered
         else if sortBy = ''popularity'' then sortSlice (\<lambda>a b. Score a > Score b) filtered
         else sortSlice (\<lambda>a b. Time a > Time b) filtered)"

text \<open>
  What \<^verbatim>\<open>sort.Slice\<close> promises: the result is a rearrangement of the slice, and when
  the comparison \<open>lt\<close> is a strict weak ordering, no element is smaller than one before
  it.  The sort is not stable: two elements of which neither is smaller than the other
  may come in either order.
\<close>

definition strictWeakOrder :: "('a \<Rightarrow> 'a \<Rightarrow> bool) \<Rightarrow> bool" where
  "strictWeakOrder lt =
     ((\<forall>a. \<not> lt a a) \<and> (\<forall>a b c. lt a b \<and> lt b c \<longrightarrow> lt a c)
      \<and> (\<forall>a b c. \<not> lt a b \<and> \<not> lt b c \<longrightarrow> \<not> lt a c))"

definition sortContract :: "(('a \<Rightarrow> 'a \<Rightarrow> bool) \<Rightarrow> 'a list \<Rightarrow> 'a list) \<Rightarrow> bool" where
  "sortContract sortSlice =
     (\<forall>lt xs. mset (sortSlice lt xs) = mset xs
        \<and> (strictWeakOrder lt \<longrightarrow> sorted_wrt (\<lambda>a b. \<not> lt b a) (sortSlice lt xs)))"

text \<open>A sorting routine that keeps the promise: sorting by insertion.\<close>

fun insertBy :: "('a \<Rightarrow> 'a \<Rightarrow> bool) \<Rightarrow> 'a \<Rightarrow> 'a list \<Rightarrow> 'a list" where
  "insertBy lt x [] = [x]"
| "insertBy lt x (y # ys) = (if lt y x then y # insertBy lt x ys else x # y # ys)"

fun insertionSort :: "('a \<Rightarrow> 'a \<Rightarrow> bool) \<Rightarrow> 'a list \<Rightarrow> 'a list" where
  "insertionSort lt [] = []"
| "insertionSort lt (x # xs) = insertBy lt x (insertionSort lt xs)"

section \<open>Example values\<close>

definition mkStory :: "int \<Rightarrow> string \<Rightarrow> int \<Rightarrow> int \<Rightarrow> string \<Rightarrow> Story" where
  "mkStory i title score time type =
     \<lparr> ID = i, Title = title, URL = [], By = [], Score = score, Time = time, Type = type \<rparr>"

definition noFilter :: FilterConfig where
  "noFilter = \<lparr> StoryTypes = [], Keywords = [], MinimumScore = 0 \<rparr>"

definition rustFilter :: FilterConfig where
  "rustFilter = \<lparr> StoryTypes = [''story''], Keywords = [''go'', ''rust''], MinimumScore = 10 \<rparr>"

text \<open>An environment in which every write returns an error and no shutdown comes.\<close>

definition alwaysFails :: "nat \<Rightarrow> attempt" where
  "alwaysFails n =
     \<lparr> ctxErrBefore = False, selected = WriteErr, ctxErrAfter = False, backoffCancelled = False \<rparr>"

text \<open>An environment in which the first write returns nil.\<close>

definition firstWriteOk :: "nat \<Rightarrow> attempt" where
  "firstWriteOk n =
     \<lparr> ctxErrBefore = False, selected = WriteNil, ctxErrAfter = False, backoffCancelled = False \<rparr>"

text \<open>A decoder that knows two payloads, and a time parser that knows two instants.\<close>

definition decodeExample :: "string \<Rightarrow> Story option" where
  "decodeExample v =
     (if v = ''rust'' then Some (mkStory 1 ''Rust 2.0'' 50 100 ''story'')
      else if v = ''cats'' then Some (mkStory 2 ''Cats'' 50 200 ''story'')
      else None)"

definition parseExample :: "string \<Rightarrow> int option" where
  "parseExample st =
     (if st = ''1970-01-01T00:00:00Z'' then Some 0
      else if st = ''1970-01-01T00:03:00Z'' then Some 180
      else None)"

text \<open>
  A table for the examples.  It is Go's \<^verbatim>\<open>unicode.CaseRanges\<close> on the Greek letters: 32 is
  added to a capital (U+0391 to U+03A1 and U+03A3 to U+03AB); the small letters, the
  final sigma U+03C2 among them, are left as they are.  Every other rune is left as it is.
\<close>

definition greekTable :: "nat \<Rightarrow> nat" where
  "greekTable r = (if (913 \<le> r \<and> r \<le> 929) \<or> (931 \<le> r \<and> r \<le> 939) then r + 32 else r)"

text \<open>
  The Greek word for street in UTF-8: in small letters (omicron, delta, omicron, final
  sigma: U+03BF U+03B4 U+03BF U+03C2), and the same word in capitals (U+039F U+0394
  U+039F U+03A3).
\<close>

definition odosSmall :: string where
  "odosSmall = [CHR 0xCE, CHR 0xBF, CHR 0xCE, CHR 0xB4, CHR 0xCE, CHR 0xBF, CHR 0xCF, CHR 0x82]"

definition odosCapital :: string where
  "odosCapital = [CHR 0xCE, CHR 0x9F, CHR 0xCE, CHR 0x94, CHR 0xCE, CHR 0x9F, CHR 0xCE, CHR 0xA3]"

text \<open>A server with an empty store and the filter for the keywords go and rust.\<close>

definition serverExample :: Server where
  "serverExample = \<lparr> store = fmempty, filter' = NewStoryFilter rustFilter, printed = [] \<rparr>"

text \<open>
  Three stories with the timestamps 100, 300, 200 and the scores 5, 50, 20, and one with
  a negative score.
\<close>

definition a3 :: Story where
  "a3 = mkStory 1 ''A'' 5 100 ''story''"

definition b3 :: Story where
  "b3 = mkStory 2 ''B'' 50 300 ''story''"

definition c3 :: Story where
  "c3 = mkStory 3 ''C'' 20 200 ''story''"


text \<open>A request whose four parameters are all malformed.\<close>

definition badQuery :: Values where
  "badQuery = [''minScore'' \<mapsto> [''abc''], ''maxScore'' \<mapsto> [''1e3''],
               ''since'' \<mapsto> [''yesterday''], ''until'' \<mapsto> [''tomorrow'']]"

text \<open>A request whose since and until are the instant 1970-01-01T00:00:00Z.\<close>

definition epochQuery :: Values where
  "epochQuery = [''since'' \<mapsto> [''1970-01-01T00:00:00Z''], ''until'' \<mapsto> [''1970-01-01T00:00:00Z'']]"

section \<open>Properties of the filter engine\<close>

lemma len_map_pos: "len_map m > 0 \<longleftrightarrow> fmdom m \<noteq> {||}"
  unfolding len_map_def by (cases "fmdom m = {||}") (auto simp: fcard_fempty)

lemma populateStoryTypes_dom:
  "fmdom (populateStoryTypes ts m) = fset_of_list ts |\<union>| fmdom m"
  by (induction ts arbitrary: m) auto

lemma populateStoryTypes_lookup:
  "fmlookup (populateStoryTypes ts m) k = (if k \<in> set ts then Some True else fmlookup m k)"
  by (induction ts arbitrary: m) auto

lemma matchKeywords_iff:
  "matchKeywords tbl titleLower kws \<longleftrightarrow> (\<exists>k \<in> set kws. Contains titleLower (ToLower tbl k))"
  by (induction kws) auto

lemma matchKeywords_map:
  "matchKeywords tbl titleLower kws \<longleftrightarrow> (\<exists>k \<in> set (map (ToLower tbl) kws). Contains titleLower k)"
  by (simp add: matchKeywords_iff)

lemma typeSet_index:
  "typeSet f \<Longrightarrow> index_bool (storyTypes f) t \<longleftrightarrow> t |\<in>| fmdom (storyTypes f)"
  unfolding typeSet_def index_bool_def
  by (auto split: option.splits simp: fmran.rep_eq fmdom.rep_eq ran_def dom_def less_eq_fset.rep_eq)

text \<open>The filter that NewStoryFilter builds holds a set of types.\<close>

lemma NewStoryFilter_typeSet: "typeSet (NewStoryFilter cfg)"
  unfolding typeSet_def NewStoryFilter_def
  by (auto simp: populateStoryTypes_lookup split: if_splits)

text \<open>Lower-casing a capital gives the small letter, and leaves the small letter alone.\<close>

lemma toLowerByte_plus32:
  assumes "65 \<le> (of_char c :: nat)" "(of_char c :: nat) \<le> 90" "(of_char d :: nat) = of_char c + 32"
  shows "toLowerByte c = d" "toLowerByte d = d"
proof -
  have "char_of ((of_char c :: nat) + 32) = char_of (of_char d :: nat)"
    using assms(3) by simp
  then show "toLowerByte c = d"
    using assms(1,2) by (simp add: toLowerByte_def)
  show "toLowerByte d = d"
    using assms by (simp add: toLowerByte_def)
qed

lemma sameLetter_lower: "sameLetter c d \<Longrightarrow> toLowerByte c = toLowerByte d"
  unfolding sameLetter_def using toLowerByte_plus32 by metis

lemma sameLetter_ascii:
  "sameLetter c d \<Longrightarrow> c = d \<or> ((of_char c :: nat) < 128 \<and> (of_char d :: nat) < 128)"
  unfolding sameLetter_def by auto

lemma sameLetter_rune:
  assumes "sameLetter c d" and "(of_char c :: nat) < 128"
  shows "unicodeToLower tbl (of_char c) = unicodeToLower tbl (of_char d)"
  using assms unfolding sameLetter_def unicodeToLower_def by auto

lemma sameCase_isASCII: "sameCase s t \<Longrightarrow> isASCII s = isASCII t"
  unfolding sameCase_def isASCII_def
  by (induction s t rule: list_all2_induct) (auto dest: sameLetter_ascii)

lemma AppendRune_not_Nil: "AppendRune r \<noteq> []"
  by (simp add: AppendRune_def)

lemma stringsMap_Nil_iff: "stringsMap mapping s = [] \<longleftrightarrow> s = []"
  by (cases s) (auto simp: AppendRune_not_Nil split: prod.splits)

text \<open>Lower-casing gives the empty string for the empty string only.\<close>

lemma ToLower_Nil_iff: "ToLower tbl s = [] \<longleftrightarrow> s = []"
  by (simp add: ToLower_def stringsMap_Nil_iff)

lemma ToLower_Nil: "ToLower tbl [] = []"
  by (simp add: ToLower_Nil_iff)

text \<open>
  Two strings that differ in the case of ASCII letters only decode alike: an ASCII byte
  is a rune of its own, and is never a continuation byte.
\<close>

lemma decode_sameCase:
  assumes "list_all2 sameLetter rest rest'" and "\<not> (of_char c0 :: nat) < 128"
  shows "DecodeRuneInString (c0 # rest) = DecodeRuneInString (c0 # rest')"
proof (cases rest)
  case Nil
  then show ?thesis using assms by simp
next
  case r1: (Cons c1 rest1)
  then obtain d1 tail1 where t1: "rest' = d1 # tail1" "sameLetter c1 d1" "list_all2 sameLetter rest1 tail1"
    using assms(1) by (auto simp: list_all2_Cons1)
  show ?thesis
  proof (cases "(of_char c1 :: nat) < 128")
    case True
    then have "(of_char d1 :: nat) < 128" using t1(2) sameLetter_ascii by fastforce
    then show ?thesis using True r1 t1(1) by (simp add: Let_def)
  next
    case False
    then have e1: "d1 = c1" using t1(2) sameLetter_ascii by fastforce
    show ?thesis
    proof (cases rest1)
      case Nil
      then show ?thesis using r1 t1 e1 by simp
    next
      case r2: (Cons c2 rest2)
      then obtain d2 tail2 where t2: "tail1 = d2 # tail2" "sameLetter c2 d2" "list_all2 sameLetter rest2 tail2"
        using t1(3) by (auto simp: list_all2_Cons1)
      show ?thesis
      proof (cases "(of_char c2 :: nat) < 128")
        case True
        then have "(of_char d2 :: nat) < 128" using t2(2) sameLetter_ascii by fastforce
        then show ?thesis using True r1 r2 t1(1) t2(1) e1 by (simp add: Let_def)
      next
        case False
        then have e2: "d2 = c2" using t2(2) sameLetter_ascii by fastforce
        show ?thesis
        proof (cases rest2)
          case Nil
          then show ?thesis using r1 r2 t1 t2 e1 e2 by simp
        next
          case r3: (Cons c3 rest3)
          then obtain d3 tail3 where t3: "tail2 = d3 # tail3" "sameLetter c3 d3"
            using t2(3) by (auto simp: list_all2_Cons1)
          show ?thesis
          proof (cases "(of_char c3 :: nat) < 128")
            case True
            then have "(of_char d3 :: nat) < 128" using t3(2) sameLetter_ascii by fastforce
            then show ?thesis using True r1 r2 r3 t1(1) t2(1) t3(1) e1 e2 by (simp add: Let_def)
          next
            case False
            then have "d3 = c3" using t3(2) sameLetter_ascii by fastforce
            then show ?thesis using r1 r2 r3 t1(1) t2(1) t3(1) e1 e2 by (simp add: Let_def)
          qed
        qed
      qed
    qed
  qed
qed

lemma stringsMap_sameCase:
  "list_all2 sameLetter s t \<Longrightarrow>
     stringsMap (unicodeToLower tbl) s = stringsMap (unicodeToLower tbl) t"
proof (induction s arbitrary: t rule: length_induct)
  case (1 s)
  show ?case
  proof (cases s)
    case Nil
    then show ?thesis using "1.prems" by simp
  next
    case (Cons c0 rest)
    then obtain d0 rest' where t: "t = d0 # rest'" "sameLetter c0 d0" "list_all2 sameLetter rest rest'"
      using "1.prems" by (auto simp: list_all2_Cons1)
    have ih: "stringsMap (unicodeToLower tbl) (drop n rest) = stringsMap (unicodeToLower tbl) (drop n rest')" for n
      using "1.IH" Cons t(3) by (simp add: list_all2_dropI)
    show ?thesis
    proof (cases "(of_char c0 :: nat) < 128")
      case True
      then have d: "(of_char d0 :: nat) < 128" using t(2) sameLetter_ascii by fastforce
      have "unicodeToLower tbl (of_char c0) = unicodeToLower tbl (of_char d0)"
        using t(2) True by (rule sameLetter_rune)
      then show ?thesis
        using True d Cons t(1) ih [of 0] by simp
    next
      case False
      then have e: "d0 = c0" using t(2) sameLetter_ascii by fastforce
      have "DecodeRuneInString (c0 # rest) = DecodeRuneInString (c0 # rest')"
        using t(3) False by (rule decode_sameCase)
      then show ?thesis
        unfolding Cons t(1) e stringsMap.simps using ih by (simp split: prod.splits)
    qed
  qed
qed

lemma sameCase_ToLower: "sameCase s t \<Longrightarrow> ToLower tbl s = ToLower tbl t"
proof -
  assume a: "sameCase s t"
  have "map toLowerByte s = map toLowerByte t"
    using a unfolding sameCase_def
    by (induction s t rule: list_all2_induct) (auto dest: sameLetter_lower)
  moreover have "stringsMap (unicodeToLower tbl) s = stringsMap (unicodeToLower tbl) t"
    using a unfolding sameCase_def by (rule stringsMap_sameCase)
  ultimately show ?thesis
    using sameCase_isASCII [OF a] by (simp add: ToLower_def)
qed

lemma sameCase_keywords:
  "list_all2 sameCase kws kws' \<Longrightarrow> map (ToLower tbl) kws = map (ToLower tbl) kws'"
  by (induction kws kws' rule: list_all2_induct) (auto dest: sameCase_ToLower)

text \<open>Matches of an enabled filter, as the conjunction of its three checks.\<close>

lemma Matches_enabled:
  "enabled f \<Longrightarrow> Matches tbl f story \<longleftrightarrow>
     (len_map (storyTypes f) = 0 \<or> index_bool (storyTypes f) (Type story))
     \<and> minimumScore f \<le> Score story
     \<and> (keywords f = [] \<or> (\<exists>k \<in> set (keywords f). Contains (ToLower tbl (Title story)) (ToLower tbl k)))"
  by (auto simp: Matches_def Let_def matchKeywords_iff)

lemma rust_contains: "Contains (ToLower greekTable ''Rust 2.0'') (ToLower greekTable ''rust'')"
  by code_simp

lemma rust_sameCase: "sameCase ''Rust 2.0'' ''RUST 2.0''"
  by (simp add: sameCase_def sameLetter_def)

lemma rust_keywords_sameCase: "list_all2 sameCase [''go'', ''rust''] [''Go'', ''RuSt'']"
  by (simp add: sameCase_def sameLetter_def)

text \<open>
  Claim C1 (filter AND law).  For every story and every filter: when \<open>enabled\<close> is false
  Matches returns true; when \<open>enabled\<close> is true, and the map of story types holds a set
  (as every filter built by NewStoryFilter does), Matches returns true if and only if
  the set of allowed types is empty or contains the type of the story, the score of the
  story is at least \<open>minimumScore\<close>, and the list of keywords is empty or the lower-cased
  title contains some lower-cased keyword.  Lower-casing is that of \<^verbatim>\<open>strings.ToLower\<close>, with
  any table \<open>tbl\<close> for the letters above ASCII.
\<close>

theorem Matches_and_law:
  "(\<not> enabled f \<longrightarrow> Matches tbl f story)
   \<and> (enabled f \<and> typeSet f \<longrightarrow>
        (Matches tbl f story \<longleftrightarrow>
           (fmdom (storyTypes f) = {||} \<or> Type story |\<in>| fmdom (storyTypes f))
           \<and> Score story \<ge> minimumScore f
           \<and> (keywords f = []
              \<or> (\<exists>k \<in> set (keywords f). Contains (ToLower tbl (Title story)) (ToLower tbl k)))))"
proof (intro conjI impI)
  assume "\<not> enabled f"
  then show "Matches tbl f story" by (simp add: Matches_def)
next
  assume a: "enabled f \<and> typeSet f"
  have "len_map (storyTypes f) = 0 \<longleftrightarrow> fmdom (storyTypes f) = {||}"
    using len_map_pos [of "storyTypes f"] by auto
  then show "Matches tbl f story \<longleftrightarrow>
           (fmdom (storyTypes f) = {||} \<or> Type story |\<in>| fmdom (storyTypes f))
           \<and> Score story \<ge> minimumScore f
           \<and> (keywords f = []
              \<or> (\<exists>k \<in> set (keywords f). Contains (ToLower tbl (Title story)) (ToLower tbl k)))"
    using a by (simp add: Matches_enabled typeSet_index)
qed

text \<open>
  Claim C1, at concrete inputs: the filter of an empty configuration is disabled and
  lets a story through; the filter for stories of type story, score 10 or more and the
  keywords go and rust is enabled and matches a story titled Rust 2.0 of score 50.
\<close>

theorem Matches_and_law_witness:
  "\<not> enabled (NewStoryFilter noFilter)
   \<and> Matches greekTable (NewStoryFilter noFilter) (mkStory 1 ''Rust 2.0'' 50 100 ''story'')
   \<and> enabled (NewStoryFilter rustFilter) \<and> typeSet (NewStoryFilter rustFilter)
   \<and> Matches greekTable (NewStoryFilter rustFilter) (mkStory 1 ''Rust 2.0'' 50 100 ''story'')"
proof -
  let ?s = "mkStory 1 ''Rust 2.0'' 50 100 ''story''"
  have d: "\<not> enabled (NewStoryFilter noFilter)"
    by (simp add: NewStoryFilter_def noFilter_def)
  have e: "enabled (NewStoryFilter rustFilter)"
    by (simp add: NewStoryFilter_def rustFilter_def)
  have t: "Type ?s |\<in>| fmdom (storyTypes (NewStoryFilter rustFilter))"
    by (simp add: NewStoryFilter_def rustFilter_def mkStory_def)
  have s: "minimumScore (NewStoryFilter rustFilter) \<le> Score ?s"
    by (simp add: NewStoryFilter_def rustFilter_def mkStory_def)
  have k: "\<exists>k \<in> set (keywords (NewStoryFilter rustFilter)).
             Contains (ToLower greekTable (Title ?s)) (ToLower greekTable k)"
    using rust_contains by (simp add: NewStoryFilter_def rustFilter_def mkStory_def)
  show ?thesis
    using Matches_and_law [where f = "NewStoryFilter noFilter" and story = ?s and tbl = greekTable]
      Matches_and_law [where f = "NewStoryFilter rustFilter" and story = ?s and tbl = greekTable]
      d e t s k NewStoryFilter_typeSet [of rustFilter]
    by blast
qed

lemma odos_lowered:
  "Contains (ToLower greekTable odosSmall) (ToLower greekTable odosSmall)"
  "\<not> Contains (ToLower greekTable odosSmall) (ToLower greekTable odosCapital)"
  by code_simp+

text \<open>
  Claim C3 as stated fails in its second half.  The title is the Greek word in small
  letters, ending in the final sigma.  With the same word as the keyword Matches returns
  true; with the keyword in capitals, which differs from it in letter case only, Matches
  returns false: the capital sigma is lower-cased to the sigma U+03C3, never to the final
  sigma U+03C2 of the title.
\<close>

theorem keyword_case_counterexample:
  "Matches greekTable
     (NewStoryFilter \<lparr> StoryTypes = [], Keywords = [odosSmall], MinimumScore = 0 \<rparr>)
     (mkStory 4 odosSmall 1 100 ''story'')
   \<and> \<not> Matches greekTable
     (NewStoryFilter \<lparr> StoryTypes = [], Keywords = [odosCapital], MinimumScore = 0 \<rparr>)
     (mkStory 4 odosSmall 1 100 ''story'')"
  using odos_lowered
  by (simp add: NewStoryFilter_def Matches_def mkStory_def len_map_def)

text \<open>
  Claim C3, amended (keyword OR law).  For an enabled filter with a non-empty list of
  keywords and a story that passes the type check and the score check, Matches returns
  true if and only if the lower-cased title contains at least one lower-cased keyword.
  And for every filter and story: a title and keywords that differ from the given ones
  in the case of ASCII letters only give the same result of Matches.  Both hold with any
  table \<open>tbl\<close> for the letters above ASCII.
\<close>

theorem keyword_or_law:
  "(enabled f \<and> length (keywords f) > 0
      \<and> (len_map (storyTypes f) = 0 \<or> index_bool (storyTypes f) (Type story))
      \<and> minimumScore f \<le> Score story \<longrightarrow>
      (Matches tbl f story \<longleftrightarrow>
         (\<exists>k \<in> set (keywords f). Contains (ToLower tbl (Title story)) (ToLower tbl k))))
   \<and> (sameCase (Title story) title' \<and> list_all2 sameCase (keywords f) kws' \<longrightarrow>
        Matches tbl (f\<lparr>keywords := kws'\<rparr>) (story\<lparr>Title := title'\<rparr>) = Matches tbl f story)"
proof (intro conjI impI)
  assume "enabled f \<and> length (keywords f) > 0
      \<and> (len_map (storyTypes f) = 0 \<or> index_bool (storyTypes f) (Type story))
      \<and> minimumScore f \<le> Score story"
  then show "Matches tbl f story \<longleftrightarrow>
         (\<exists>k \<in> set (keywords f). Contains (ToLower tbl (Title story)) (ToLower tbl k))"
    by (auto simp: Matches_enabled)
next
  assume a: "sameCase (Title story) title' \<and> list_all2 sameCase (keywords f) kws'"
  then have t: "ToLower tbl title' = ToLower tbl (Title story)"
    using sameCase_ToLower [of "Title story" title'] by simp
  from a have k: "map (ToLower tbl) kws' = map (ToLower tbl) (keywords f)"
    using sameCase_keywords [of "keywords f" kws'] by simp
  from a have l: "length kws' = length (keywords f)"
    using list_all2_lengthD [of sameCase "keywords f" kws'] by simp
  have "matchKeywords tbl (ToLower tbl title') kws' = matchKeywords tbl (ToLower tbl (Title story)) (keywords f)"
    unfolding matchKeywords_map t k ..
  then show "Matches tbl (f\<lparr>keywords := kws'\<rparr>) (story\<lparr>Title := title'\<rparr>) = Matches tbl f story"
    using l by (simp add: Matches_def Let_def)
qed

text \<open>
  Claim C3, amended, at concrete inputs: the title Rust 2.0 matches the keyword rust, and so does
  the title RUST 2.0 against the keywords Go and RuSt.
\<close>

theorem keyword_or_law_witness:
  "enabled (NewStoryFilter rustFilter)
   \<and> Matches greekTable (NewStoryFilter rustFilter) (mkStory 1 ''Rust 2.0'' 50 100 ''story'')
   \<and> (\<exists>k \<in> set (keywords (NewStoryFilter rustFilter)). Contains (ToLower greekTable ''Rust 2.0'') (ToLower greekTable k))
   \<and> sameCase ''Rust 2.0'' ''RUST 2.0''
   \<and> list_all2 sameCase (keywords (NewStoryFilter rustFilter)) [''Go'', ''RuSt'']
   \<and> Matches greekTable ((NewStoryFilter rustFilter)\<lparr>keywords := [''Go'', ''RuSt'']\<rparr>)
        (mkStory 1 ''RUST 2.0'' 50 100 ''story'')"
proof -
  let ?f = "NewStoryFilter rustFilter" and ?s = "mkStory 1 ''Rust 2.0'' 50 100 ''story''"
  have e: "enabled ?f \<and> length (keywords ?f) > 0 \<and> minimumScore ?f \<le> Score ?s"
    by (simp add: NewStoryFilter_def rustFilter_def mkStory_def)
  have t: "index_bool (storyTypes ?f) (Type ?s)"
    by (simp add: NewStoryFilter_def rustFilter_def mkStory_def index_bool_def)
  have k: "\<exists>k \<in> set (keywords ?f). Contains (ToLower greekTable (Title ?s)) (ToLower greekTable k)"
    using rust_contains by (simp add: NewStoryFilter_def rustFilter_def mkStory_def)
  have c: "sameCase (Title ?s) ''RUST 2.0'' \<and> list_all2 sameCase (keywords ?f) [''Go'', ''RuSt'']"
    using rust_sameCase rust_keywords_sameCase
    by (simp add: NewStoryFilter_def rustFilter_def mkStory_def)
  have u: "?s\<lparr>Title := ''RUST 2.0''\<rparr> = mkStory 1 ''RUST 2.0'' 50 100 ''story''"
    by (simp add: mkStory_def)
  have m: "Matches greekTable ?f ?s"
    using keyword_or_law [where f = ?f and story = ?s and title' = "''RUST 2.0''"
        and kws' = "[''Go'', ''RuSt'']" and tbl = greekTable] e t k by blast
  have "Matches greekTable (?f\<lparr>keywords := [''Go'', ''RuSt'']\<rparr>) (?s\<lparr>Title := ''RUST 2.0''\<rparr>)"
    using keyword_or_law [where f = ?f and story = ?s and title' = "''RUST 2.0''"
        and kws' = "[''Go'', ''RuSt'']" and tbl = greekTable] c m by blast
  then show ?thesis
    using e k c m u by (simp add: mkStory_def)
qed

text \<open>
  Claim C5 as stated fails: with no story types, no keywords and the minimum score -1,
  the minimum score is not zero and yet NewStoryFilter leaves the filter disabled.
\<close>

theorem NewStoryFilter_enabled_counterexample:
  "\<not> (enabled (NewStoryFilter \<lparr> StoryTypes = [], Keywords = [], MinimumScore = - 1 \<rparr>)
        \<longleftrightarrow> (StoryTypes \<lparr> StoryTypes = [], Keywords = [], MinimumScore = - 1 \<rparr> \<noteq> []
             \<or> Keywords \<lparr> StoryTypes = [], Keywords = [], MinimumScore = - 1 \<rparr> \<noteq> []
             \<or> MinimumScore \<lparr> StoryTypes = [], Keywords = [], MinimumScore = - 1 \<rparr> \<noteq> 0))"
  by (simp add: NewStoryFilter_def)

text \<open>
  Claim C5, amended.  For every filter configuration, NewStoryFilter sets \<open>enabled\<close> to
  true if and only if the list of story types is non-empty, or the list of keywords is
  non-empty, or the minimum score is greater than zero.
\<close>

theorem NewStoryFilter_enabled:
  "enabled (NewStoryFilter cfg)
     \<longleftrightarrow> (length (StoryTypes cfg) > 0 \<or> length (Keywords cfg) > 0 \<or> MinimumScore cfg > 0)"
  by (simp add: NewStoryFilter_def)

text \<open>
  Claim C6 as stated fails: the keyword list that holds the empty keyword is non-empty,
  and a story with the empty title matches it, since the empty string occurs in every
  string.
\<close>

theorem empty_title_counterexample:
  "length (Keywords \<lparr> StoryTypes = [], Keywords = [''''], MinimumScore = 0 \<rparr>) > 0
   \<and> Title (mkStory 7 '''' 3 100 ''story'') = ''''
   \<and> Matches greekTable (NewStoryFilter \<lparr> StoryTypes = [], Keywords = [''''], MinimumScore = 0 \<rparr>)
        (mkStory 7 '''' 3 100 ''story'')"
  by (simp add: NewStoryFilter_def Matches_def mkStory_def len_map_def Contains_def ToLower_def
      isASCII_def)

text \<open>
  Claim C6, amended.  For every filter configuration with a non-empty list of keywords
  none of which is the empty string, and every story whose title is the empty string,
  Matches returns false, with any table \<open>tbl\<close> for the letters above ASCII.
\<close>

theorem empty_title_never_matches:
  assumes "length (Keywords cfg) > 0" and "\<forall>k \<in> set (Keywords cfg). k \<noteq> []"
    and "Title story = []"
  shows "\<not> Matches tbl (NewStoryFilter cfg) story"
proof -
  have "enabled (NewStoryFilter cfg)" and "keywords (NewStoryFilter cfg) = Keywords cfg"
    using assms(1) by (simp_all add: NewStoryFilter_def)
  moreover have "\<not> (\<exists>k \<in> set (Keywords cfg). Contains (ToLower tbl (Title story)) (ToLower tbl k))"
    using assms(2,3) by (simp add: ToLower_Nil ToLower_Nil_iff Contains_def)
  ultimately show ?thesis
    using assms(1) by (auto simp: Matches_enabled)
qed

text \<open>
  Claim C6, amended, at a concrete input: the keywords go and rust and a story with the
  empty title, of the right type and score.
\<close>

theorem empty_title_never_matches_witness:
  "length (Keywords rustFilter) > 0 \<and> [] \<notin> set (Keywords rustFilter)
   \<and> Title (mkStory 7 '''' 50 100 ''story'') = []
   \<and> \<not> Matches greekTable (NewStoryFilter rustFilter) (mkStory 7 '''' 50 100 ''story'')"
proof -
  have a: "length (Keywords rustFilter) > 0" and b: "\<forall>k \<in> set (Keywords rustFilter). k \<noteq> []"
    and c: "Title (mkStory 7 '''' 50 100 ''story'') = []"
    by (simp_all add: rustFilter_def mkStory_def)
  show ?thesis
    using empty_title_never_matches [OF a b c] a b c by auto
qed

section \<open>Properties of the producer\<close>

lemma publishAttempts_result:
  "publishAttempts env msg attempt topic = (None, topic @ [msg])
   \<or> (\<exists>e. publishAttempts env msg attempt topic = (Some e, topic))"
proof (induction env msg attempt topic rule: publishAttempts.induct)
  case (1 env msg attempt topic)
  show ?case
    using "1.IH" by (subst (1 2) publishAttempts.simps) auto
qed

lemma publishStoryToKafka_result:
  "publishStoryToKafka env story source topic = (None, topic @ [(source, story)])
   \<or> (\<exists>e. publishStoryToKafka env story source topic = (Some e, topic))"
  unfolding publishStoryToKafka_def by (rule publishAttempts_result)

lemma messagesFor_append:
  "messagesFor i (topic @ [m]) = messagesFor i topic + (if ID (snd m) = i then 1 else 0)"
  by (simp add: messagesFor_def)

lemma index_bool_fmupd:
  "index_bool (fmupd k True m) j \<longleftrightarrow> j = k \<or> index_bool m j"
  by (simp add: index_bool_def)

lemma addAndPublishStory_cases:
  "addAndPublishStory env story source s = s \<and> index_bool (seenStories s) (ID story)
   \<or> \<not> index_bool (seenStories s) (ID story)
     \<and> seenStories (addAndPublishStory env story source s) = fmupd (ID story) True (seenStories s)
     \<and> (kafkaWriter (addAndPublishStory env story source s) = kafkaWriter s @ [(source, story)]
          \<and> fst (publishStoryToKafka env story source (kafkaWriter s)) = None
        \<or> kafkaWriter (addAndPublishStory env story source s) = kafkaWriter s
          \<and> fst (publishStoryToKafka env story source (kafkaWriter s)) \<noteq> None)"
  using publishStoryToKafka_result [of env story source "kafkaWriter s"]
  by (auto simp: addAndPublishStory_def Let_def)

lemma addAndPublishStory_seen:
  "index_bool (seenStories s) i \<Longrightarrow> index_bool (seenStories (addAndPublishStory env story source s)) i"
  using addAndPublishStory_cases [of env story source s] by (auto simp: index_bool_fmupd)

lemma addAndPublishStory_skips:
  "index_bool (seenStories s) i \<Longrightarrow>
     messagesFor i (kafkaWriter (addAndPublishStory env story source s)) = messagesFor i (kafkaWriter s)"
  using addAndPublishStory_cases [of env story source s] by (auto simp: messagesFor_append)

lemma addAndPublishStory_published_seen:
  assumes "published_seen s"
  shows "published_seen (addAndPublishStory env story source s)"
  unfolding published_seen_def
proof (intro allI)
  fix i
  have a: "messagesFor i (kafkaWriter s) \<le> 1"
    and b: "0 < messagesFor i (kafkaWriter s) \<Longrightarrow> index_bool (seenStories s) i"
    using assms by (auto simp: published_seen_def)
  have c: "\<not> index_bool (seenStories s) (ID story) \<Longrightarrow> messagesFor (ID story) (kafkaWriter s) = 0"
    using assms unfolding published_seen_def by (metis gr0I)
  show "messagesFor i (kafkaWriter (addAndPublishStory env story source s)) \<le> 1
        \<and> (0 < messagesFor i (kafkaWriter (addAndPublishStory env story source s))
             \<longrightarrow> index_bool (seenStories (addAndPublishStory env story source s)) i)"
    using addAndPublishStory_cases [of env story source s] a b c
    by (auto simp: messagesFor_append index_bool_fmupd split: if_splits)
qed

lemma addAndPublishAll_published_seen:
  "published_seen s \<Longrightarrow> published_seen (addAndPublishAll calls s)"
  by (induction calls s rule: addAndPublishAll.induct) (auto simp: addAndPublishStory_published_seen)

lemma addAndPublishAll_skips:
  "index_bool (seenStories s) i \<Longrightarrow>
     messagesFor i (kafkaWriter (addAndPublishAll calls s)) = messagesFor i (kafkaWriter s)"
  by (induction calls s rule: addAndPublishAll.induct)
    (auto simp: addAndPublishStory_skips addAndPublishStory_seen)

lemma NewScraper_published_seen: "published_seen NewScraper"
  by (simp add: published_seen_def NewScraper_def messagesFor_def)

text \<open>
  Claim C2 (dedup idempotence).  In a process lifetime, which starts from NewScraper and
  is any sequence of calls of addAndPublishStory, at most one broker message is published
  for any item id.  A call for an id that is already marked seen publishes nothing,
  whatever the writer would do.  And when the publish of an unseen story fails (a shutdown,
  or every retry used up), the id is marked seen all the same, nothing is published, and
  no later call publishes it.
\<close>

theorem dedup_at_most_once:
  "messagesFor i (kafkaWriter (addAndPublishAll calls NewScraper)) \<le> 1
   \<and> (index_bool (seenStories s) i \<longrightarrow>
        messagesFor i (kafkaWriter (addAndPublishAll calls s)) = messagesFor i (kafkaWriter s))
   \<and> (\<not> index_bool (seenStories s) (ID story)
        \<and> fst (publishStoryToKafka env story source (kafkaWriter s)) \<noteq> None \<longrightarrow>
        index_bool (seenStories (addAndPublishStory env story source s)) (ID story)
        \<and> kafkaWriter (addAndPublishStory env story source s) = kafkaWriter s
        \<and> messagesFor (ID story)
            (kafkaWriter (addAndPublishAll calls (addAndPublishStory env story source s)))
          = messagesFor (ID story) (kafkaWriter s))"
proof (intro conjI impI)
  show "messagesFor i (kafkaWriter (addAndPublishAll calls NewScraper)) \<le> 1"
    using addAndPublishAll_published_seen [OF NewScraper_published_seen, of calls]
    by (simp add: published_seen_def)
next
  assume "index_bool (seenStories s) i"
  then show "messagesFor i (kafkaWriter (addAndPublishAll calls s)) = messagesFor i (kafkaWriter s)"
    by (rule addAndPublishAll_skips)
next
  assume a: "\<not> index_bool (seenStories s) (ID story)
        \<and> fst (publishStoryToKafka env story source (kafkaWriter s)) \<noteq> None"
  let ?s' = "addAndPublishStory env story source s"
  show seen: "index_bool (seenStories ?s') (ID story)"
    using a addAndPublishStory_cases [of env story source s] by (auto simp: index_bool_fmupd)
  show same: "kafkaWriter ?s' = kafkaWriter s"
    using a addAndPublishStory_cases [of env story source s] by auto
  show "messagesFor (ID story) (kafkaWriter (addAndPublishAll calls ?s'))
          = messagesFor (ID story) (kafkaWriter s)"
    using addAndPublishAll_skips [OF seen, of calls] same by simp
qed

lemma alwaysFails_result:
  "publishStoryToKafka alwaysFails st src topic = (Some RetriesFailed, topic)"
  by (simp add: publishStoryToKafka_def publishAttempts.simps maxRetries_def alwaysFails_def)

lemma firstWriteOk_result:
  "publishStoryToKafka firstWriteOk st src topic = (None, topic @ [(src, st)])"
  by (simp add: publishStoryToKafka_def publishAttempts.simps maxRetries_def firstWriteOk_def)

text \<open>
  Claim C2, at a concrete input: the writer fails six times on story 1, which is then
  marked seen; a later call for story 1, with a writer that would succeed at once,
  publishes nothing.
\<close>

theorem dedup_at_most_once_witness:
  "\<not> index_bool (seenStories NewScraper) (ID (mkStory 1 ''Rust 2.0'' 50 100 ''story''))
   \<and> fst (publishStoryToKafka alwaysFails (mkStory 1 ''Rust 2.0'' 50 100 ''story'') ''top''
         (kafkaWriter NewScraper)) = Some RetriesFailed
   \<and> index_bool (seenStories (addAndPublishStory alwaysFails (mkStory 1 ''Rust 2.0'' 50 100 ''story'')
         ''top'' NewScraper)) 1
   \<and> messagesFor 1 (kafkaWriter (addAndPublishAll
         [(mkStory 1 ''Rust 2.0'' 50 100 ''story'', ''new'', firstWriteOk)]
         (addAndPublishStory alwaysFails (mkStory 1 ''Rust 2.0'' 50 100 ''story'') ''top'' NewScraper))) = 0"
proof -
  let ?st = "mkStory 1 ''Rust 2.0'' 50 100 ''story''"
  have a: "\<not> index_bool (seenStories NewScraper) (ID ?st)"
    by (simp add: NewScraper_def index_bool_def)
  have b: "fst (publishStoryToKafka alwaysFails ?st ''top'' (kafkaWriter NewScraper)) = Some RetriesFailed"
    by (simp add: alwaysFails_result)
  have c: "ID ?st = 1" and d: "messagesFor 1 (kafkaWriter NewScraper) = 0"
    by (simp_all add: mkStory_def NewScraper_def messagesFor_def)
  show ?thesis
    using dedup_at_most_once [of 1 "[(?st, ''new'', firstWriteOk)]" NewScraper ?st alwaysFails "''top''"]
      a b c d by simp
qed

section \<open>Properties of the consumer\<close>

lemma print_fields: "store (print l s) = store s" "filter' (print l s) = filter' s"
  by (simp_all add: print_def)

lemma AddStory_fields:
  "store (AddStory story s) = fmupd (ID story) story (store s)" "filter' (AddStory story s) = filter' s"
  by (simp_all add: AddStory_def)

lemma consumeMessages_filter: "filter' (consumeMessages tbl unmarshal es s) = filter' s"
  by (induction tbl unmarshal es s rule: consumeMessages.induct)
    (auto simp: print_fields AddStory_fields split: option.splits)

lemma consumeMessages_append:
  "running es \<Longrightarrow>
     consumeMessages tbl unmarshal (es @ es') s = consumeMessages tbl unmarshal es' (consumeMessages tbl unmarshal es s)"
  by (induction tbl unmarshal es s rule: consumeMessages.induct) (auto split: option.splits)

text \<open>
  Claim C8 (a message never blocks the ones after it).  A message whose decoding fails is
  logged and skipped: the loop goes on with the rest, the store unchanged.  A decoded
  story that fails the filter is logged and discarded: the loop goes on with the rest,
  the store unchanged.  And after any events that do not end the loop (fetch errors,
  malformed messages, filtered messages, stored messages), a message that decodes to a
  story passing the filter is stored in the Item Index under its id.  This holds for every
  decoder \<open>unmarshal\<close> and every table \<open>tbl\<close> that the filter lower-cases with.
\<close>

theorem consume_continues:
  "(unmarshal v = None \<longrightarrow>
      consumeMessages tbl unmarshal (Message v # es) s
        = consumeMessages tbl unmarshal es (print ErrorUnmarshal s)
      \<and> store (print ErrorUnmarshal s) = store s)
   \<and> (unmarshal v = Some story \<and> \<not> Matches tbl (filter' s) story \<longrightarrow>
      consumeMessages tbl unmarshal (Message v # es) s
        = consumeMessages tbl unmarshal es (print (FilteredLine (ID story)) s)
      \<and> store (print (FilteredLine (ID story)) s) = store s)
   \<and> (running es \<and> unmarshal v' = Some story' \<and> Matches tbl (filter' s) story' \<longrightarrow>
      fmlookup (store (consumeMessages tbl unmarshal (es @ [Message v']) s)) (ID story') = Some story')"
proof (intro conjI impI)
  assume "unmarshal v = None"
  then show "consumeMessages tbl unmarshal (Message v # es) s
        = consumeMessages tbl unmarshal es (print ErrorUnmarshal s)"
    by simp
next
  show "store (print ErrorUnmarshal s) = store s"
    by (rule print_fields)
next
  assume "unmarshal v = Some story \<and> \<not> Matches tbl (filter' s) story"
  then show "consumeMessages tbl unmarshal (Message v # es) s
        = consumeMessages tbl unmarshal es (print (FilteredLine (ID story)) s)"
    by simp
next
  show "store (print (FilteredLine (ID story)) s) = store s"
    by (rule print_fields)
next
  assume a: "running es \<and> unmarshal v' = Some story' \<and> Matches tbl (filter' s) story'"
  let ?s = "consumeMessages tbl unmarshal es s"
  have "consumeMessages tbl unmarshal (es @ [Message v']) s = consumeMessages tbl unmarshal [Message v'] ?s"
    using a by (simp add: consumeMessages_append)
  moreover have "Matches tbl (filter' ?s) story'"
    using a by (simp add: consumeMessages_filter)
  ultimately show
    "fmlookup (store (consumeMessages tbl unmarshal (es @ [Message v']) s)) (ID story') = Some story'"
    using a by (simp add: print_fields AddStory_fields)
qed

lemma cats_no_keyword:
  "\<not> Contains (ToLower greekTable ''Cats'') (ToLower greekTable ''go'')" "\<not> Contains (ToLower greekTable ''Cats'') (ToLower greekTable ''rust'')"
  by code_simp+

lemma example_matches:
  "\<not> Matches greekTable (NewStoryFilter rustFilter) (mkStory 2 ''Cats'' 50 200 ''story'')"
  "Matches greekTable (NewStoryFilter rustFilter) (mkStory 1 ''Rust 2.0'' 50 100 ''story'')"
  using cats_no_keyword rust_contains
  by (simp_all add: Matches_def NewStoryFilter_def rustFilter_def mkStory_def len_map_def
      index_bool_def)

text \<open>
  Claim C8, at a concrete input: a malformed payload, a story about cats that the filter
  for go and rust rejects, a fetch error, and then a story about Rust, which is stored.
\<close>

theorem consume_continues_witness:
  "decodeExample ''{bad'' = None
   \<and> decodeExample ''cats'' = Some (mkStory 2 ''Cats'' 50 200 ''story'')
   \<and> \<not> Matches greekTable (filter' serverExample) (mkStory 2 ''Cats'' 50 200 ''story'')
   \<and> consumeMessages greekTable decodeExample [Message ''{bad'', Message ''cats''] serverExample
       = print (FilteredLine 2) (print ErrorUnmarshal serverExample)
   \<and> running [Message ''{bad'', Message ''cats'', FetchFailed]
   \<and> decodeExample ''rust'' = Some (mkStory 1 ''Rust 2.0'' 50 100 ''story'')
   \<and> Matches greekTable (filter' serverExample) (mkStory 1 ''Rust 2.0'' 50 100 ''story'')
   \<and> fmlookup (store (consumeMessages greekTable decodeExample
         ([Message ''{bad'', Message ''cats'', FetchFailed] @ [Message ''rust'']) serverExample)) 1
       = Some (mkStory 1 ''Rust 2.0'' 50 100 ''story'')"
proof -
  let ?cats = "mkStory 2 ''Cats'' 50 200 ''story''" and ?rust = "mkStory 1 ''Rust 2.0'' 50 100 ''story''"
  have d: "decodeExample ''{bad'' = None" "decodeExample ''cats'' = Some ?cats"
    "decodeExample ''rust'' = Some ?rust"
    by (simp_all add: decodeExample_def)
  have i: "ID ?cats = 2" "ID ?rust = 1"
    by (simp_all add: mkStory_def)
  have f: "filter' serverExample = NewStoryFilter rustFilter"
    "filter' (print ErrorUnmarshal serverExample) = NewStoryFilter rustFilter"
    by (simp_all add: serverExample_def print_def)
  have r: "running [Message ''{bad'', Message ''cats'', FetchFailed]"
    by simp
  have 1: "consumeMessages greekTable decodeExample [Message ''{bad'', Message ''cats''] serverExample
             = consumeMessages greekTable decodeExample [Message ''cats''] (print ErrorUnmarshal serverExample)"
    using consume_continues [where unmarshal = decodeExample and v = "''{bad''"
        and es = "[Message ''cats'']" and s = serverExample] d(1)
    by blast
  have 2: "consumeMessages greekTable decodeExample [Message ''cats''] (print ErrorUnmarshal serverExample)
             = consumeMessages greekTable decodeExample [] (print (FilteredLine 2) (print ErrorUnmarshal serverExample))"
    using consume_continues [where unmarshal = decodeExample and v = "''cats''" and story = ?cats
        and es = "[]" and s = "print ErrorUnmarshal serverExample"]
      d(2) example_matches(1) f(2) i(1) by simp
  have 3: "fmlookup (store (consumeMessages greekTable decodeExample
         ([Message ''{bad'', Message ''cats'', FetchFailed] @ [Message ''rust'']) serverExample)) 1
       = Some ?rust"
    using consume_continues [where unmarshal = decodeExample and s = serverExample
        and es = "[Message ''{bad'', Message ''cats'', FetchFailed]" and v' = "''rust''"
        and story' = ?rust]
      d(3) example_matches(2) f(1) i(2) r by simp
  show ?thesis
    using d example_matches f(1) r 1 2 3 by simp
qed

section \<open>Properties of the query layer\<close>

lemma maxScoreDefault_value: "maxScoreDefault = 2147483647"
  unfolding maxScoreDefault_def by code_simp

lemma filterStories_filter:
  "filterStories lo hi since until xs =
     filter (\<lambda>s. lo \<le> Score s \<and> Score s \<le> hi
                \<and> \<not> (since > 0 \<and> Time s < since) \<and> \<not> (until > 0 \<and> Time s > until)) xs"
  by (induction xs) auto

lemma mset_insertBy: "mset (insertBy lt x xs) = add_mset x (mset xs)"
  by (induction xs) auto

lemma mset_insertionSort: "mset (insertionSort lt xs) = mset xs"
  by (induction xs) (auto simp: mset_insertBy)

lemma set_insertBy: "set (insertBy lt x xs) = insert x (set xs)"
  by (induction xs) auto

lemma sorted_insertBy:
  assumes "strictWeakOrder lt" "sorted_wrt (\<lambda>a b. \<not> lt b a) xs"
  shows "sorted_wrt (\<lambda>a b. \<not> lt b a) (insertBy lt x xs)"
  using assms(2)
proof (induction xs)
  case Nil
  then show ?case by simp
next
  case (Cons y ys)
  have irr: "\<And>a. \<not> lt a a" and tr: "\<And>a b c. lt a b \<Longrightarrow> lt b c \<Longrightarrow> lt a c"
    and ntr: "\<And>a b c. \<not> lt a b \<Longrightarrow> \<not> lt b c \<Longrightarrow> \<not> lt a c"
    using assms(1) unfolding strictWeakOrder_def by blast+
  show ?case
  proof (cases "lt y x")
    case True
    then have "\<not> lt x y" using irr tr by blast
    then show ?thesis
      using True Cons by (auto simp: set_insertBy)
  next
    case False
    have "\<forall>z \<in> set ys. \<not> lt z x"
      using False Cons.prems ntr by auto
    then show ?thesis
      using False Cons.prems by auto
  qed
qed

lemma insertionSort_contract: "sortContract insertionSort"
  unfolding sortContract_def
proof (intro allI conjI impI)
  fix lt :: "'a \<Rightarrow> 'a \<Rightarrow> bool" and xs
  show "mset (insertionSort lt xs) = mset xs" by (rule mset_insertionSort)
  assume "strictWeakOrder lt"
  then show "sorted_wrt (\<lambda>a b. \<not> lt b a) (insertionSort lt xs)"
    by (induction xs) (auto simp: sorted_insertBy)
qed

lemma strictWeakOrder_key:
  fixes key :: "'a \<Rightarrow> int"
  shows "strictWeakOrder (\<lambda>a b. key a < key b)" "strictWeakOrder (\<lambda>a b. key a > key b)"
  unfolding strictWeakOrder_def by auto

lemma contract_set: "sortContract srt \<Longrightarrow> set (srt lt xs) = set xs"
  unfolding sortContract_def by (metis set_mset_mset)

lemma contract_mset: "sortContract srt \<Longrightarrow> mset (srt lt xs) = mset xs"
  unfolding sortContract_def by blast

lemma contract_sorted:
  "sortContract srt \<Longrightarrow> strictWeakOrder lt \<Longrightarrow> sorted_wrt (\<lambda>a b. \<not> lt b a) (srt lt xs)"
  unfolding sortContract_def by blast

lemma handle_set:
  assumes "sortContract srt"
  shows "set (handleGetStories srt pt stories query) =
          set (filterStories (minScoreOf query) (maxScoreOf query)
                 (sinceTimeOf pt query) (untilTimeOf pt query) stories)"
  using assms by (simp add: handleGetStories_def Let_def contract_set)

lemma three_sorted:
  assumes "mset ys = {#a, b, c#}" "sorted_wrt R ys" "\<not> R b a" "\<not> R c a" "\<not> R c b"
  shows "ys = [a, b, c]"
proof -
  have "length ys = 3" using assms(1) by (metis size_mset size_add_mset size_empty numeral_3_eq_3)
  then obtain x y z where ys: "ys = [x, y, z]"
    by (metis length_0_conv length_Suc_conv numeral_3_eq_3)
  have "R x y" "R x z" "R y z" using assms(2) ys by auto
  moreover have "{#x, y, z#} = {#a, b, c#}" using assms(1) ys by simp
  ultimately show ?thesis
    using assms(3-5) ys by (auto simp: add_eq_conv_ex)
qed

lemma handle_member:
  assumes "sortContract srt"
  shows "story \<in> set (handleGetStories srt pt stories query) \<longleftrightarrow>
           story \<in> set stories
           \<and> minScoreOf query \<le> Score story \<and> Score story \<le> maxScoreOf query
           \<and> \<not> (sinceTimeOf pt query > 0 \<and> Time story < sinceTimeOf pt query)
           \<and> \<not> (untilTimeOf pt query > 0 \<and> Time story > untilTimeOf pt query)"
  using assms by (auto simp: handle_set filterStories_filter)






text \<open>Atoi on a few strings: digits, signs, letters, and a number too large for \<^verbatim>\<open>int\<close>.\<close>

lemma Atoi_examples:
  "Atoi ''5'' = Some 5" "Atoi ''50'' = Some 50" "Atoi ''49'' = Some 49" "Atoi ''6'' = Some 6"
  "Atoi ''abc'' = None" "Atoi ''1e3'' = None" "Atoi ''-7'' = Some (- 7)" "Atoi ''+'' = None"
  "Atoi ''99999999999999999999'' = None"
  by (simp_all add: inRange_def)



lemma filterStories_all:
  assumes "\<forall>s \<in> set xs. lo \<le> Score s \<and> Score s \<le> hi"
  shows "filterStories lo hi 0 0 xs = xs"
  using assms by (induction xs) auto

lemma mset_three_set: "mset xs = {#a, b, c#} \<Longrightarrow> set xs = {a, b, c}"
  by (metis set_mset_add_mset_insert set_mset_empty set_mset_mset)

lemma latest_fallback:
  assumes l: "Get query ''sort'' \<noteq> ''oldest'' \<and> Get query ''sort'' \<noteq> ''popularity''"
  shows "handleGetStories sortSlice parseTime stories query
            = handleGetStories sortSlice parseTime stories (query(''sort'' \<mapsto> [''latest'']))"
proof -
  let ?q = "query(''sort'' \<mapsto> [''latest''])"
  have g: "Get ?q ''sort'' = ''latest''" "Get ?q ''minScore'' = Get query ''minScore''"
    "Get ?q ''maxScore'' = Get query ''maxScore''" "Get ?q ''since'' = Get query ''since''"
    "Get ?q ''until'' = Get query ''until''"
    by (simp_all add: Get_def)
  have p: "minScoreOf ?q = minScoreOf query" "maxScoreOf ?q = maxScoreOf query"
    "sinceTimeOf parseTime ?q = sinceTimeOf parseTime query"
    "untilTimeOf parseTime ?q = untilTimeOf parseTime query"
    unfolding minScoreOf_def maxScoreOf_def sinceTimeOf_def untilTimeOf_def g by simp_all
  show ?thesis
    unfolding handleGetStories_def p g using l by (simp add: Let_def)
qed

lemma example_oldest:
  assumes "sortContract sortSlice" and "mset stories = {#a, b, c#}"
    and "Time a = 100" "Time b = 300" "Time c = (200::int)"
  shows "sortSlice (\<lambda>x y. Time x < Time y) stories = [a, c, b]"
proof (rule three_sorted)
  show "mset (sortSlice (\<lambda>x y. Time x < Time y) stories) = {#a, c, b#}"
    using contract_mset [OF assms(1)] assms(2) by (simp add: add_mset_commute)
  show "sorted_wrt (\<lambda>x y. \<not> Time y < Time x) (sortSlice (\<lambda>x y. Time x < Time y) stories)"
    using contract_sorted [OF assms(1) strictWeakOrder_key(1) [of Time]] .
  show "\<not> \<not> Time a < Time c" "\<not> \<not> Time a < Time b" "\<not> \<not> Time c < Time b"
    using assms(3-5) by simp_all
qed

lemma example_latest:
  assumes "sortContract sortSlice" and "mset stories = {#a, b, c#}"
    and "Time a = 100" "Time b = 300" "Time c = (200::int)"
  shows "sortSlice (\<lambda>x y. Time x > Time y) stories = [b, c, a]"
proof (rule three_sorted)
  show "mset (sortSlice (\<lambda>x y. Time x > Time y) stories) = {#b, c, a#}"
    using contract_mset [OF assms(1)] assms(2) by (simp add: add_mset_commute)
  show "sorted_wrt (\<lambda>x y. \<not> Time y > Time x) (sortSlice (\<lambda>x y. Time x > Time y) stories)"
    using contract_sorted [OF assms(1) strictWeakOrder_key(2) [of Time]] .
  show "\<not> \<not> Time b > Time c" "\<not> \<not> Time b > Time a" "\<not> \<not> Time c > Time a"
    using assms(3-5) by simp_all
qed

lemma example_popularity:
  assumes "sortContract sortSlice" and "mset stories = {#a, b, c#}"
    and "Score a = 5" "Score b = 50" "Score c = (20::int)"
  shows "sortSlice (\<lambda>x y. Score x > Score y) stories = [b, c, a]"
proof (rule three_sorted)
  show "mset (sortSlice (\<lambda>x y. Score x > Score y) stories) = {#b, c, a#}"
    using contract_mset [OF assms(1)] assms(2) by (simp add: add_mset_commute)
  show "sorted_wrt (\<lambda>x y. \<not> Score y > Score x) (sortSlice (\<lambda>x y. Score x > Score y) stories)"
    using contract_sorted [OF assms(1) strictWeakOrder_key(2) [of Score]] .
  show "\<not> \<not> Score b > Score c" "\<not> \<not> Score b > Score a" "\<not> \<not> Score c > Score a"
    using assms(3-5) by simp_all
qed

lemma example_unfiltered:
  assumes "mset stories = {#a, b, c#}" and "Score a = 5" "Score b = 50" "Score c = 20"
    and "Get query ''minScore'' = []" "Get query ''maxScore'' = []"
    and "Get query ''since'' = []" "Get query ''until'' = []"
  shows "filterStories (minScoreOf query) (maxScoreOf query)
              (sinceTimeOf parseTime query) (untilTimeOf parseTime query) stories = stories"
proof -
  have p: "minScoreOf query = 0" "maxScoreOf query = 2147483647"
    "sinceTimeOf parseTime query = 0" "untilTimeOf parseTime query = 0"
    using assms(5-8)
    by (simp_all add: minScoreOf_def maxScoreOf_def sinceTimeOf_def untilTimeOf_def
        maxScoreDefault_value)
  have "set stories = {a, b, c}" using assms(1) by (rule mset_three_set)
  then have "\<forall>s \<in> set stories. 0 \<le> Score s \<and> Score s \<le> 2147483647"
    using assms(2-4) by simp
  then show ?thesis
    unfolding p by (rule filterStories_all)
qed

lemma handle_oldest:
  "Get query ''sort'' = ''oldest'' \<Longrightarrow>
     handleGetStories sortSlice parseTime stories query =
       sortSlice (\<lambda>x y. Time x < Time y)
         (filterStories (minScoreOf query) (maxScoreOf query)
              (sinceTimeOf parseTime query) (untilTimeOf parseTime query) stories)"
  by (simp add: handleGetStories_def Let_def)

lemma handle_popularity:
  "Get query ''sort'' = ''popularity'' \<Longrightarrow>
     handleGetStories sortSlice parseTime stories query =
       sortSlice (\<lambda>x y. Score x > Score y)
         (filterStories (minScoreOf query) (maxScoreOf query)
              (sinceTimeOf parseTime query) (untilTimeOf parseTime query) stories)"
  by (simp add: handleGetStories_def Let_def)

lemma handle_latest:
  "Get query ''sort'' \<noteq> ''oldest'' \<Longrightarrow> Get query ''sort'' \<noteq> ''popularity'' \<Longrightarrow>
     handleGetStories sortSlice parseTime stories query =
       sortSlice (\<lambda>x y. Time x > Time y)
         (filterStories (minScoreOf query) (maxScoreOf query)
              (sinceTimeOf parseTime query) (untilTimeOf parseTime query) stories)"
  by (simp add: handleGetStories_def Let_def)

text \<open>
  Claim C7 (sort order).  The result of handleGetStories is ordered by the sort
  parameter: oldest gives ascending timestamps, popularity gives descending scores, and
  any other value, or none, gives descending timestamps and the same response as latest.
  In particular three stored items a, b, c with the timestamps 100, 300, 200 and the
  scores 5, 50, 20, in whatever order the store yields them and with no score or time
  parameter, come out as a, c, b for oldest (timestamps 100, 200, 300) and as b, c, a for
  popularity (scores 50, 20, 5) and for latest or no sort value (timestamps 300, 200, 100).
\<close>

theorem sort_order:
  assumes "sortContract sortSlice"
  shows
    "(Get query ''sort'' = ''oldest'' \<longrightarrow>
        sorted_wrt (\<lambda>x y. Time x \<le> Time y) (handleGetStories sortSlice parseTime stories query))
     \<and> (Get query ''sort'' = ''popularity'' \<longrightarrow>
        sorted_wrt (\<lambda>x y. Score x \<ge> Score y) (handleGetStories sortSlice parseTime stories query))
     \<and> (Get query ''sort'' \<noteq> ''oldest'' \<and> Get query ''sort'' \<noteq> ''popularity'' \<longrightarrow>
        sorted_wrt (\<lambda>x y. Time x \<ge> Time y) (handleGetStories sortSlice parseTime stories query)
        \<and> handleGetStories sortSlice parseTime stories query
            = handleGetStories sortSlice parseTime stories (query(''sort'' \<mapsto> [''latest''])))
     \<and> (mset stories = {#a, b, c#}
          \<and> Time a = 100 \<and> Time b = 300 \<and> Time c = 200
          \<and> Score a = 5 \<and> Score b = 50 \<and> Score c = 20
          \<and> Get query ''minScore'' = [] \<and> Get query ''maxScore'' = []
          \<and> Get query ''since'' = [] \<and> Get query ''until'' = [] \<longrightarrow>
        handleGetStories sortSlice parseTime stories query
          = (if Get query ''sort'' = ''oldest'' then [a, c, b] else [b, c, a]))"
proof (intro conjI impI)
  let ?f = "filterStories (minScoreOf query) (maxScoreOf query)
              (sinceTimeOf parseTime query) (untilTimeOf parseTime query) stories"
  {
    assume o: "Get query ''sort'' = ''oldest''"
    have "sorted_wrt (\<lambda>x y. \<not> Time y < Time x) (sortSlice (\<lambda>x y. Time x < Time y) ?f)"
      using contract_sorted [OF assms strictWeakOrder_key(1) [of Time]] .
    then show "sorted_wrt (\<lambda>x y. Time x \<le> Time y) (handleGetStories sortSlice parseTime stories query)"
      unfolding handle_oldest [OF o] by (simp add: not_less)
  }
  {
    assume p: "Get query ''sort'' = ''popularity''"
    have "sorted_wrt (\<lambda>x y. \<not> Score y > Score x) (sortSlice (\<lambda>x y. Score x > Score y) ?f)"
      using contract_sorted [OF assms strictWeakOrder_key(2) [of Score]] .
    then show "sorted_wrt (\<lambda>x y. Score x \<ge> Score y) (handleGetStories sortSlice parseTime stories query)"
      unfolding handle_popularity [OF p] by (simp add: not_less)
  }
  {
    assume l: "Get query ''sort'' \<noteq> ''oldest'' \<and> Get query ''sort'' \<noteq> ''popularity''"
    have "sorted_wrt (\<lambda>x y. \<not> Time y > Time x) (sortSlice (\<lambda>x y. Time x > Time y) ?f)"
      using contract_sorted [OF assms strictWeakOrder_key(2) [of Time]] .
    then show "sorted_wrt (\<lambda>x y. Time x \<ge> Time y) (handleGetStories sortSlice parseTime stories query)"
      using l handle_latest [of query sortSlice parseTime stories] by (simp add: not_less)
    show "handleGetStories sortSlice parseTime stories query
            = handleGetStories sortSlice parseTime stories (query(''sort'' \<mapsto> [''latest'']))"
      using l by (rule latest_fallback)
  }
  {
    assume e: "mset stories = {#a, b, c#}
          \<and> Time a = 100 \<and> Time b = 300 \<and> Time c = 200
          \<and> Score a = 5 \<and> Score b = 50 \<and> Score c = 20
          \<and> Get query ''minScore'' = [] \<and> Get query ''maxScore'' = []
          \<and> Get query ''since'' = [] \<and> Get query ''until'' = []"
    then have f: "?f = stories"
      using example_unfiltered [of stories a b c query parseTime] by blast
    have 1: "sortSlice (\<lambda>x y. Time x < Time y) stories = [a, c, b]"
      using example_oldest [OF assms, of stories a b c] e by blast
    have 2: "sortSlice (\<lambda>x y. Score x > Score y) stories = [b, c, a]"
      using example_popularity [OF assms, of stories a b c] e by blast
    have 3: "sortSlice (\<lambda>x y. Time x > Time y) stories = [b, c, a]"
      using example_latest [OF assms, of stories a b c] e by blast
    show "handleGetStories sortSlice parseTime stories query
          = (if Get query ''sort'' = ''oldest'' then [a, c, b] else [b, c, a])"
    proof (cases "Get query ''sort'' = ''oldest''")
      case True
      then show ?thesis
        unfolding handle_oldest [OF True] f 1 by simp
    next
      case False
      show ?thesis
      proof (cases "Get query ''sort'' = ''popularity''")
        case True
        then show ?thesis
          unfolding handle_popularity [OF True] f 2 by simp
      next
        case nP: False
        show ?thesis
          unfolding handle_latest [OF False nP] f 3 using False by simp
      qed
    qed
  }
qed

lemma three_mset: "mset [a3, b3, c3] = {#a3, b3, c3#}"
  by simp

lemma three_fields:
  "Time a3 = 100" "Time b3 = 300" "Time c3 = 200" "Score a3 = 5" "Score b3 = 50" "Score c3 = 20"
  by (simp_all add: a3_def b3_def c3_def mkStory_def)

text \<open>
  Claim C7, at concrete inputs: the three stories, sorted by insertion, for the sort
  values oldest, popularity, latest, the unknown value newest, and no value.
\<close>

theorem sort_order_witness:
  "sortContract (insertionSort :: (Story \<Rightarrow> Story \<Rightarrow> bool) \<Rightarrow> Story list \<Rightarrow> Story list)
   \<and> handleGetStories insertionSort parseExample [a3, b3, c3] [''sort'' \<mapsto> [''oldest'']] = [a3, c3, b3]
   \<and> handleGetStories insertionSort parseExample [a3, b3, c3] [''sort'' \<mapsto> [''popularity'']] = [b3, c3, a3]
   \<and> handleGetStories insertionSort parseExample [a3, b3, c3] [''sort'' \<mapsto> [''latest'']] = [b3, c3, a3]
   \<and> handleGetStories insertionSort parseExample [a3, b3, c3] [''sort'' \<mapsto> [''newest'']] = [b3, c3, a3]
   \<and> handleGetStories insertionSort parseExample [a3, b3, c3] Map.empty = [b3, c3, a3]
   \<and> map Time [a3, c3, b3] = [100, 200, 300] \<and> map Score [b3, c3, a3] = [50, 20, 5]"
proof -
  note c = insertionSort_contract [where 'a = Story]
  have ex: "handleGetStories insertionSort parseExample [a3, b3, c3] q
              = (if Get q ''sort'' = ''oldest'' then [a3, c3, b3] else [b3, c3, a3])"
    if "Get q ''minScore'' = []" "Get q ''maxScore'' = []" "Get q ''since'' = []"
      "Get q ''until'' = []" for q
    using sort_order [OF c, where stories = "[a3, b3, c3]" and a = a3 and b = b3 and c = c3
        and query = q and parseTime = parseExample] three_mset three_fields that
    by blast
  have "handleGetStories insertionSort parseExample [a3, b3, c3] [''sort'' \<mapsto> [''oldest'']] = [a3, c3, b3]"
    by (subst ex) (simp_all add: Get_def)
  moreover have "handleGetStories insertionSort parseExample [a3, b3, c3] [''sort'' \<mapsto> [''popularity'']] = [b3, c3, a3]"
    by (subst ex) (simp_all add: Get_def)
  moreover have "handleGetStories insertionSort parseExample [a3, b3, c3] [''sort'' \<mapsto> [''latest'']] = [b3, c3, a3]"
    by (subst ex) (simp_all add: Get_def)
  moreover have "handleGetStories insertionSort parseExample [a3, b3, c3] [''sort'' \<mapsto> [''newest'']] = [b3, c3, a3]"
    by (subst ex) (simp_all add: Get_def)
  moreover have "handleGetStories insertionSort parseExample [a3, b3, c3] Map.empty = [b3, c3, a3]"
    by (subst ex) (simp_all add: Get_def)
  ultimately show ?thesis
    using c three_fields by simp
qed

lemma Get_removed:
  "Get (query(key := None)) key = []" "k \<noteq> key \<Longrightarrow> Get (query(key := None)) k = Get query k"
  by (simp_all add: Get_def)

text \<open>
  Claim C9 (malformed parameters are ignored).  A minScore or maxScore that
  \<^verbatim>\<open>strconv.Atoi\<close> rejects, and a since or until that the RFC3339 parser rejects, changes
  nothing: the handler answers as it answers the same request without that parameter.
  The handler has no path that rejects a request.
\<close>

theorem malformed_ignored:
  "(Atoi (Get query ''minScore'') = None \<longrightarrow>
      handleGetStories sortSlice parseTime stories query
        = handleGetStories sortSlice parseTime stories (query(''minScore'' := None)))
   \<and> (Atoi (Get query ''maxScore'') = None \<longrightarrow>
      handleGetStories sortSlice parseTime stories query
        = handleGetStories sortSlice parseTime stories (query(''maxScore'' := None)))
   \<and> (parseTime (Get query ''since'') = None \<longrightarrow>
      handleGetStories sortSlice parseTime stories query
        = handleGetStories sortSlice parseTime stories (query(''since'' := None)))
   \<and> (parseTime (Get query ''until'') = None \<longrightarrow>
      handleGetStories sortSlice parseTime stories query
        = handleGetStories sortSlice parseTime stories (query(''until'' := None)))"
proof (intro conjI impI)
  assume a: "Atoi (Get query ''minScore'') = None"
  let ?q = "query(''minScore'' := None)"
  have "minScoreOf ?q = minScoreOf query"
    using a by (simp add: minScoreOf_def Get_removed Let_def)
  then show "handleGetStories sortSlice parseTime stories query
        = handleGetStories sortSlice parseTime stories ?q"
    by (simp add: handleGetStories_def maxScoreOf_def sinceTimeOf_def untilTimeOf_def Get_removed)
next
  assume a: "Atoi (Get query ''maxScore'') = None"
  let ?q = "query(''maxScore'' := None)"
  have "maxScoreOf ?q = maxScoreOf query"
    using a by (simp add: maxScoreOf_def Get_removed Let_def)
  then show "handleGetStories sortSlice parseTime stories query
        = handleGetStories sortSlice parseTime stories ?q"
    by (simp add: handleGetStories_def minScoreOf_def sinceTimeOf_def untilTimeOf_def Get_removed)
next
  assume a: "parseTime (Get query ''since'') = None"
  let ?q = "query(''since'' := None)"
  have "sinceTimeOf parseTime ?q = sinceTimeOf parseTime query"
    using a by (simp add: sinceTimeOf_def Get_removed Let_def)
  then show "handleGetStories sortSlice parseTime stories query
        = handleGetStories sortSlice parseTime stories ?q"
    by (simp add: handleGetStories_def minScoreOf_def maxScoreOf_def untilTimeOf_def Get_removed)
next
  assume a: "parseTime (Get query ''until'') = None"
  let ?q = "query(''until'' := None)"
  have "untilTimeOf parseTime ?q = untilTimeOf parseTime query"
    using a by (simp add: untilTimeOf_def Get_removed Let_def)
  then show "handleGetStories sortSlice parseTime stories query
        = handleGetStories sortSlice parseTime stories ?q"
    by (simp add: handleGetStories_def minScoreOf_def maxScoreOf_def sinceTimeOf_def Get_removed)
qed

text \<open>
  Claim C9, at a concrete input: a request with minScore=abc, maxScore=1e3,
  since=yesterday and until=tomorrow.
\<close>

theorem malformed_ignored_witness:
  "Atoi (Get badQuery ''minScore'') = None \<and> Atoi (Get badQuery ''maxScore'') = None
   \<and> parseExample (Get badQuery ''since'') = None \<and> parseExample (Get badQuery ''until'') = None
   \<and> handleGetStories insertionSort parseExample [a3, b3, c3] badQuery
       = handleGetStories insertionSort parseExample [a3, b3, c3] (badQuery(''minScore'' := None))
   \<and> handleGetStories insertionSort parseExample [a3, b3, c3] badQuery
       = handleGetStories insertionSort parseExample [a3, b3, c3] (badQuery(''maxScore'' := None))
   \<and> handleGetStories insertionSort parseExample [a3, b3, c3] badQuery
       = handleGetStories insertionSort parseExample [a3, b3, c3] (badQuery(''since'' := None))
   \<and> handleGetStories insertionSort parseExample [a3, b3, c3] badQuery
       = handleGetStories insertionSort parseExample [a3, b3, c3] (badQuery(''until'' := None))"
proof -
  have g: "Atoi (Get badQuery ''minScore'') = None" "Atoi (Get badQuery ''maxScore'') = None"
    "parseExample (Get badQuery ''since'') = None" "parseExample (Get badQuery ''until'') = None"
    by (simp_all add: badQuery_def Get_def parseExample_def)
  show ?thesis
    using malformed_ignored [of badQuery insertionSort parseExample "[a3, b3, c3]"] g by blast
qed

text \<open>
  Claim C10 (a since or until at or before the epoch is not applied).  When since parses
  to a Unix time of zero or less, the handler answers as it answers the same request
  without since; likewise for until.  And when neither \<^verbatim>\<open>sinceTime\<close> nor \<^verbatim>\<open>untilTime\<close> is
  greater than zero, every stored item whose score is within the score bounds is in the
  response, whatever its time field.
\<close>

theorem nonpositive_time_ignored:
  "(parseTime (Get query ''since'') = Some t \<and> t \<le> 0 \<longrightarrow>
      handleGetStories sortSlice parseTime stories query
        = handleGetStories sortSlice parseTime stories (query(''since'' := None)))
   \<and> (parseTime (Get query ''until'') = Some t \<and> t \<le> 0 \<longrightarrow>
      handleGetStories sortSlice parseTime stories query
        = handleGetStories sortSlice parseTime stories (query(''until'' := None)))
   \<and> (sortContract sortSlice \<and> story \<in> set stories
        \<and> sinceTimeOf parseTime query \<le> 0 \<and> untilTimeOf parseTime query \<le> 0
        \<and> minScoreOf query \<le> Score story \<and> Score story \<le> maxScoreOf query \<longrightarrow>
      story \<in> set (handleGetStories sortSlice parseTime stories query))"
proof (intro conjI impI)
  assume a: "parseTime (Get query ''since'') = Some t \<and> t \<le> 0"
  let ?q = "query(''since'' := None)"
  have "sinceTimeOf parseTime query \<le> 0" "sinceTimeOf parseTime ?q = 0"
    using a by (simp_all add: sinceTimeOf_def Get_removed Let_def)
  then have "filterStories lo hi (sinceTimeOf parseTime query) u stories
               = filterStories lo hi (sinceTimeOf parseTime ?q) u stories" for lo hi u
    by (simp add: filterStories_filter)
  then show "handleGetStories sortSlice parseTime stories query
        = handleGetStories sortSlice parseTime stories ?q"
    by (simp add: handleGetStories_def minScoreOf_def maxScoreOf_def untilTimeOf_def Get_removed)
next
  assume a: "parseTime (Get query ''until'') = Some t \<and> t \<le> 0"
  let ?q = "query(''until'' := None)"
  have "untilTimeOf parseTime query \<le> 0" "untilTimeOf parseTime ?q = 0"
    using a by (simp_all add: untilTimeOf_def Get_removed Let_def)
  then have "filterStories lo hi u (untilTimeOf parseTime query) stories
               = filterStories lo hi u (untilTimeOf parseTime ?q) stories" for lo hi u
    by (simp add: filterStories_filter)
  then show "handleGetStories sortSlice parseTime stories query
        = handleGetStories sortSlice parseTime stories ?q"
    by (simp add: handleGetStories_def minScoreOf_def maxScoreOf_def sinceTimeOf_def Get_removed)
next
  assume "sortContract sortSlice \<and> story \<in> set stories
        \<and> sinceTimeOf parseTime query \<le> 0 \<and> untilTimeOf parseTime query \<le> 0
        \<and> minScoreOf query \<le> Score story \<and> Score story \<le> maxScoreOf query"
  then show "story \<in> set (handleGetStories sortSlice parseTime stories query)"
    by (simp add: handle_member)
qed

text \<open>
  Claim C10, at a concrete input: since and until both 1970-01-01T00:00:00Z, which
  parses to 0; the story with the timestamp 300 is in the response.
\<close>

theorem nonpositive_time_ignored_witness:
  "parseExample (Get epochQuery ''since'') = Some 0 \<and> parseExample (Get epochQuery ''until'') = Some 0
   \<and> handleGetStories insertionSort parseExample [a3, b3, c3] epochQuery
       = handleGetStories insertionSort parseExample [a3, b3, c3] (epochQuery(''since'' := None))
   \<and> handleGetStories insertionSort parseExample [a3, b3, c3] epochQuery
       = handleGetStories insertionSort parseExample [a3, b3, c3] (epochQuery(''until'' := None))
   \<and> b3 \<in> set (handleGetStories insertionSort parseExample [a3, b3, c3] epochQuery)"
proof -
  note c = insertionSort_contract [where 'a = Story]
  have g: "parseExample (Get epochQuery ''since'') = Some 0"
    "parseExample (Get epochQuery ''until'') = Some 0"
    by (simp_all add: epochQuery_def Get_def parseExample_def)
  have p: "sinceTimeOf parseExample epochQuery \<le> 0" "untilTimeOf parseExample epochQuery \<le> 0"
    "minScoreOf epochQuery \<le> Score b3" "Score b3 \<le> maxScoreOf epochQuery" "b3 \<in> set [a3, b3, c3]"
    by (simp_all add: epochQuery_def Get_def parseExample_def sinceTimeOf_def untilTimeOf_def
        minScoreOf_def maxScoreOf_def maxScoreDefault_value three_fields)
  have z: "(0::int) \<le> 0" by simp
  show ?thesis
    using nonpositive_time_ignored [of parseExample epochQuery 0 insertionSort "[a3, b3, c3]" b3]
      g p c z by blast
qed

end
